theory Spec2Isabelle
  imports Main
begin

section \<open>Strings\<close>

text \<open>
  A Python \<open>str\<close> is modelled as a \<open>string\<close>, one \<open>char\<close> per character.  Character
  classes, case folding and white space are those of ASCII text; the literals of the source
  that lie outside ASCII are written as the bytes of their UTF-8 encoding.
\<close>

text \<open>\<open>needle in haystack\<close> on strings: the needle occurs as a contiguous block.\<close>

fun startswith :: "string \<Rightarrow> string \<Rightarrow> bool" where
  "startswith [] s = True"
| "startswith (p # ps) [] = False"
| "startswith (p # ps) (c # cs) = (p = c \<and> startswith ps cs)"

fun str_in :: "string \<Rightarrow> string \<Rightarrow> bool" where
  "str_in d [] = (d = [])"
| "str_in d (c # cs) = (startswith d (c # cs) \<or> str_in d cs)"

text \<open>White space as \<open>str.isspace\<close>, \<open>str.strip\<close> and the pattern \<open>\s\<close> see it.\<close>

definition whitespace :: string where
  "whitespace = [CHR 0x09, CHR 0x0A, CHR 0x0B, CHR 0x0C, CHR 0x0D,
                 CHR 0x1C, CHR 0x1D, CHR 0x1E, CHR 0x1F, CHR '' '']"

definition ascii_uppercase :: string where "ascii_uppercase = ''ABCDEFGHIJKLMNOPQRSTUVWXYZ''"
definition ascii_lowercase :: string where "ascii_lowercase = ''abcdefghijklmnopqrstuvwxyz''"
definition digits :: string where "digits = ''0123456789''"

definition isspace :: "char \<Rightarrow> bool" where "isspace c = (c \<in> set whitespace)"
definition isdigit :: "char \<Rightarrow> bool" where "isdigit c = (c \<in> set digits)"
definition isalpha :: "char \<Rightarrow> bool" where
  "isalpha c = (c \<in> set ascii_uppercase \<or> c \<in> set ascii_lowercase)"

definition lower_char :: "char \<Rightarrow> char" where
  "lower_char c = (case map_of (zip ascii_uppercase ascii_lowercase) c of Some l \<Rightarrow> l | None \<Rightarrow> c)"

definition lower :: "string \<Rightarrow> string" where
  "lower s = map lower_char s"

text \<open>\<open>s.strip(chars)\<close>; \<open>s.strip()\<close> is \<open>strip_chars isspace s\<close>.\<close>

definition strip_chars :: "(char \<Rightarrow> bool) \<Rightarrow> string \<Rightarrow> string" where
  "strip_chars P s = rev (dropWhile P (rev (dropWhile P s)))"

definition strip :: "string \<Rightarrow> string" where
  "strip s = strip_chars isspace s"

text \<open>\<open>sep.join(parts)\<close>.\<close>

fun join :: "string \<Rightarrow> string list \<Rightarrow> string" where
  "join sep [] = []"
| "join sep [x] = x"
| "join sep (x # y # ys) = x @ sep @ join sep (y # ys)"

section \<open>The document tree\<close>

text \<open>
  The tree that BeautifulSoup builds: an element has a tag name, its attributes with their
  values as written in the markup, and its children; the other nodes are text.
\<close>

datatype node = Element string "(string \<times> string) list" "node list" | NavigableString string

text \<open>The element itself and everything below it, in document order.\<close>

fun descendants :: "node \<Rightarrow> node list" where
  "descendants (NavigableString s) = [NavigableString s]"
| "descendants (Element t a cs) = Element t a cs # concat (map descendants cs)"

text \<open>\<open>element.text\<close>: the strings below the element, concatenated.\<close>

fun get_text :: "node \<Rightarrow> string" where
  "get_text (NavigableString s) = s"
| "get_text (Element t a cs) = concat (map get_text cs)"

fun children :: "node \<Rightarrow> node list" where
  "children (Element t a cs) = cs"
| "children (NavigableString s) = []"

fun is_tag :: "string list \<Rightarrow> node \<Rightarrow> bool" where
  "is_tag names (Element t a cs) = (t \<in> set names)"
| "is_tag names (NavigableString s) = False"

fun attr :: "string \<Rightarrow> node \<Rightarrow> string option" where
  "attr k (Element t a cs) = map_of a k"
| "attr k (NavigableString s) = None"

text \<open>
  \<open>find_all\<close> and \<open>find\<close> below a list of nodes: for the whole document its top-level nodes,
  for an element its children.
\<close>

definition find_all :: "node list \<Rightarrow> (node \<Rightarrow> bool) \<Rightarrow> node list" where
  "find_all roots matches = filter matches (concat (map descendants roots))"

definition find_first :: "node list \<Rightarrow> (node \<Rightarrow> bool) \<Rightarrow> node option" where
  "find_first roots matches = find matches (concat (map descendants roots))"

text \<open>
  \<open>re.search\<close> for a pattern that is an alternation of literal words, as it is and with
  \<open>re.I\<close>; and the \<open>class_\<close> filter with such a pattern.  No word of the patterns has white
  space in it, so one of the classes matches exactly when the attribute as written does.
\<close>

definition re_search_any :: "string list \<Rightarrow> string \<Rightarrow> bool" where
  "re_search_any alts s = (\<exists>a \<in> set alts. str_in a s)"

definition re_search_any_i :: "string list \<Rightarrow> string \<Rightarrow> bool" where
  "re_search_any_i alts s = (\<exists>a \<in> set alts. str_in (lower a) (lower s))"

definition class_matches :: "(string \<Rightarrow> bool) \<Rightarrow> node \<Rightarrow> bool" where
  "class_matches P n = (case attr ''class'' n of None \<Rightarrow> False | Some v \<Rightarrow> P v)"

text \<open>
  The patterns with digits: \<open>\d+\<close> followed by a literal (\<open>\d+%\<close>, \<open>\d+ percent\<close>), the
  pattern \<open>\d+ in \d+\<close>, and \<open>\d+\<close> alone.
\<close>

fun digit_then :: "string \<Rightarrow> string \<Rightarrow> bool" where
  "digit_then lit [] = False"
| "digit_then lit (c # cs) = ((isdigit c \<and> startswith lit cs) \<or> digit_then lit cs)"

fun digit_in_digit :: "string \<Rightarrow> bool" where
  "digit_in_digit [] = False"
| "digit_in_digit (c # cs) =
     ((isdigit c \<and> startswith '' in '' cs
         \<and> (case drop 4 cs of [] \<Rightarrow> False | x # _ \<Rightarrow> isdigit x))
      \<or> digit_in_digit cs)"

definition has_digit :: "string \<Rightarrow> bool" where
  "has_digit s = (\<exists>c \<in> set s. isdigit c)"

section \<open>parser_manager.py: the dispatcher\<close>

datatype strategy = RootsOfLonelinessParser | CnbcParser

text \<open>A parser instance as \<open>BaseParser.__init__\<close> leaves it: no document fetched yet.\<close>

record parser =
  cls :: strategy
  url :: string
  soup :: "node list option"

definition new_parser :: "strategy \<Rightarrow> string \<Rightarrow> parser" where
  "new_parser c u = \<lparr>cls = c, url = u, soup = None\<rparr>"

text \<open>The registry \<open>self.parsers\<close>: a dict, iterated in insertion order.\<close>

definition parsers :: "(string \<times> strategy) list" where
  "parsers = [(''rootsofloneliness.com'', RootsOfLonelinessParser), (''cnbc.com'', CnbcParser)]"

fun get_parser_for_url :: "(string \<times> strategy) list \<Rightarrow> string \<Rightarrow> parser option" where
  "get_parser_for_url [] u = None"
| "get_parser_for_url ((domain, parser_class) # rest) u =
     (if str_in domain u then Some (new_parser parser_class u) else get_parser_for_url rest u)"

section \<open>models.py\<close>

text \<open>
  The exceptions the pipeline meets: a missing dictionary key, a violated uniqueness
  constraint, a value longer than its column, and any other failure of the database.
\<close>

datatype error = KeyError | IntegrityError | DataError | DatabaseError

type_synonym date = "nat \<times> nat \<times> nat"

text \<open>\<open>models.Model\<close>: the primary key is \<open>None\<close> until the row is inserted.\<close>

record model =
  pk :: "nat option"

text \<open>\<open>Category\<close> and \<open>Tag\<close>: the two classes have the same fields and the same mixin.\<close>

record slug_model = model +
  name :: string
  slug :: string

text \<open>
  The columns of \<open>Article\<close> that the pipeline writes, and \<open>published_at\<close>.  The audit
  columns (\<open>created_at\<close>, \<open>updated_at\<close>, \<open>added_by\<close>, \<open>published_by\<close>) are left out.
  The many-to-many relations live in their own tables, as in the database.
\<close>

record article_row = model +
  title :: string
  source_name :: string
  original_url :: "string option"
  publication_date :: "date option"
  authors :: string
  summary :: string
  full_text_content :: "string option"
  status :: string
  published_at :: "nat option"

text \<open>An \<open>Article\<close> instance in memory: the row and the attribute \<open>_original_status\<close>.\<close>

record article = article_row +
  original_status :: "string option"

definition STATUS_DRAFT :: string where "STATUS_DRAFT = ''DRAFT''"
definition STATUS_PENDING :: string where "STATUS_PENDING = ''PENDING''"
definition STATUS_PUBLISHED :: string where "STATUS_PUBLISHED = ''PUBLISHED''"
definition STATUS_REJECTED :: string where "STATUS_REJECTED = ''REJECTED''"

text \<open>
  The database: each table with the next value of its key sequence, and the two relation
  tables of pairs (article key, category or tag key).
\<close>

record db =
  category_table :: "slug_model list"
  category_seq :: nat
  tag_table :: "slug_model list"
  tag_seq :: nat
  article_table :: "article_row list"
  article_seq :: nat
  article_categories :: "(nat \<times> nat) list"
  article_tags :: "(nat \<times> nat) list"

text \<open>
  \<open>SlugMixin.save\<close>, on a table and its sequence.  \<open>slugify\<close> is Django's, a parameter here.
  \<open>super().save()\<close> inserts a new row or rewrites the row with the same key; the database
  refuses a name over 100 or a slug over 110 characters, and a name or a slug that another
  row has.  \<open>fault\<close> says that the database fails for a reason of its own.
\<close>

definition slug_model_write ::
  "bool \<Rightarrow> slug_model list \<times> nat \<Rightarrow> slug_model \<Rightarrow> (slug_model list \<times> nat) \<times> (error + slug_model)" where
  "slug_model_write fault tbl m =
     (if fault then (tbl, Inl DatabaseError)
      else if 100 < length (name m) \<or> 110 < length (slug m) then (tbl, Inl DataError)
      else if \<exists>r \<in> set (fst tbl). pk r \<noteq> pk m \<and> (name r = name m \<or> slug r = slug m)
        then (tbl, Inl IntegrityError)
      else (case pk m of
              None \<Rightarrow> (let m' = m\<lparr>pk := Some (snd tbl)\<rparr> in ((fst tbl @ [m'], Suc (snd tbl)), Inr m'))
            | Some k \<Rightarrow>
                if \<exists>r \<in> set (fst tbl). pk r = Some k
                then ((map (\<lambda>r. if pk r = Some k then m else r) (fst tbl), snd tbl), Inr m)
                else ((fst tbl @ [m], snd tbl), Inr m)))"

definition SlugMixin_save ::
  "(string \<Rightarrow> string) \<Rightarrow> bool \<Rightarrow> slug_model list \<times> nat \<Rightarrow> slug_model
   \<Rightarrow> (slug_model list \<times> nat) \<times> (error + slug_model)" where
  "SlugMixin_save slugify fault tbl m =
     (let m1 = (if slug m = [] \<and> name m \<noteq> []
                then m\<lparr>slug := take 110 (slugify (name m))\<rparr> else m)
      in slug_model_write fault tbl m1)"

text \<open>\<open>Article.__init__\<close>: the instance remembers the status it was loaded or built with.\<close>

definition Article_init :: "article_row \<Rightarrow> article" where
  "Article_init r = article_row.extend r (article.fields (Some (status r)))"

text \<open>
  \<open>models.Model.save\<close> for an article: the row is inserted under the next key when it has
  none, rewritten otherwise.  The database refuses a value longer than its column and a URL
  that another row has.  The result is the key of the row.
\<close>

definition article_write :: "bool \<Rightarrow> db \<Rightarrow> article_row \<Rightarrow> db \<times> (error + nat)" where
  "article_write fault d r =
     (if fault then (d, Inl DatabaseError)
      else if 255 < length (title r) \<or> 150 < length (source_name r) \<or> 500 < length (authors r)
              \<or> 10 < length (status r)
              \<or> (case original_url r of None \<Rightarrow> False | Some u \<Rightarrow> 2000 < length u)
        then (d, Inl DataError)
      else if \<exists>r' \<in> set (article_table d).
                 pk r' \<noteq> pk r \<and> original_url r \<noteq> None \<and> original_url r' = original_url r
        then (d, Inl IntegrityError)
      else (case pk r of
              None \<Rightarrow>
                (d\<lparr>article_table := article_table d @ [r\<lparr>pk := Some (article_seq d)\<rparr>],
                   article_seq := Suc (article_seq d)\<rparr>, Inr (article_seq d))
            | Some k \<Rightarrow>
                if \<exists>r' \<in> set (article_table d). pk r' = Some k
                then (d\<lparr>article_table := map (\<lambda>r'. if pk r' = Some k then r else r') (article_table d)\<rparr>,
                      Inr k)
                else (d\<lparr>article_table := article_table d @ [r]\<rparr>, Inr k)))"

text \<open>
  \<open>Article.save\<close>.  The instance is changed in place before \<open>super().save()\<close> runs, so the
  result holds the instance as the call leaves it also when the database raises; only after
  a successful write is \<open>_original_status\<close> brought up to date.  \<open>now\<close> is what
  \<open>timezone.now()\<close> returns.
\<close>

definition Article_save :: "bool \<Rightarrow> nat \<Rightarrow> db \<Rightarrow> article \<Rightarrow> article \<times> db \<times> error option" where
  "Article_save fault now d a =
     (let current_status = status a;
          is_publishing_now =
            (current_status = STATUS_PUBLISHED \<and> original_status a \<noteq> Some STATUS_PUBLISHED);
          a1 = (if is_publishing_now \<and> published_at a = None
                then a\<lparr>published_at := Some now\<rparr> else a)
      in case article_write fault d (article_row.truncate a1) of
           (d', Inl err) \<Rightarrow> (a1, d', Some err)
         | (d', Inr k) \<Rightarrow> (a1\<lparr>pk := Some k, original_status := Some current_status\<rparr>, d', None))"

text \<open>What the admin and the workflow do to an instance between two saves.\<close>

datatype article_op = SetStatus string | Save bool nat

fun run_ops :: "article_op list \<Rightarrow> db \<Rightarrow> article \<Rightarrow> article \<times> db" where
  "run_ops [] d a = (a, d)"
| "run_ops (SetStatus s # ops) d a = run_ops ops d (a\<lparr>status := s\<rparr>)"
| "run_ops (Save fault now # ops) d a =
     (case Article_save fault now d a of (a', d', _) \<Rightarrow> run_ops ops d' a')"

section \<open>base_parser.py: the commit\<close>

text \<open>
  What the world outside the program supplies: Django's \<open>slugify\<close>, \<open>datetime.strptime\<close>
  (the string, then the format; \<open>None\<close> for \<open>ValueError\<close>), the clock, the document the network serves for a
  URL at the n-th request (\<open>None\<close> when the request fails), and the database operations of
  the commit at which the database raises for a reason of its own.
\<close>

datatype step =
    GetOrCreateCategory string | GetOrCreateTag string
  | ArticleFilter | ArticleCreate | CategoriesAdd | TagsAdd | ArticleSave

record env =
  slugify :: "string \<Rightarrow> string"
  strptime :: "string \<Rightarrow> string \<Rightarrow> date option"
  now :: nat
  today :: date
  web :: "nat \<Rightarrow> string \<Rightarrow> node list option"
  fails :: "step \<Rightarrow> bool"

text \<open>
  The dictionary \<open>parse\<close> returns, with the types \<open>parse\<close> gives its values; \<open>None\<close> is an
  absent key.
\<close>

record data =
  d_title :: "string option"
  d_summary :: "string option"
  d_source_name :: "string option"
  d_original_url :: "string option"
  d_publication_date :: "date option"
  d_authors :: "string option"
  d_full_text_content :: "string option"
  d_categories :: "string list option"
  d_tags :: "string list option"

text \<open>
  \<open>objects.get_or_create(slug=s, defaults={'name': nm})\<close> on a table and its sequence: the
  row with that slug if there is one, a new row otherwise.
\<close>

definition get_or_create ::
  "(string \<Rightarrow> string) \<Rightarrow> bool \<Rightarrow> slug_model list \<times> nat \<Rightarrow> string \<Rightarrow> string
   \<Rightarrow> (slug_model list \<times> nat) \<times> (error + slug_model)" where
  "get_or_create slugify' fault tbl s nm =
     (if fault then (tbl, Inl DatabaseError)
      else case find (\<lambda>r. slug r = s) (fst tbl) of
             Some r \<Rightarrow> (tbl, Inr r)
           | None \<Rightarrow> SlugMixin_save slugify' fault tbl \<lparr>pk = None, name = nm, slug = s\<rparr>)"

text \<open>
  The two loops of \<open>save_to_db\<close> over the category and the tag names.  An exception leaves
  the loop at once; the rows created before it stay in the table.
\<close>

fun get_or_create_each ::
  "(string \<Rightarrow> string) \<Rightarrow> (string \<Rightarrow> bool) \<Rightarrow> slug_model list \<times> nat \<Rightarrow> string list
   \<Rightarrow> (slug_model list \<times> nat) \<times> (error + slug_model list)" where
  "get_or_create_each slugify' faulty tbl [] = (tbl, Inr [])"
| "get_or_create_each slugify' faulty tbl (n # ns) =
     (case get_or_create slugify' (faulty n) tbl (slugify' n) n of
        (tbl1, Inl err) \<Rightarrow> (tbl1, Inl err)
      | (tbl1, Inr c) \<Rightarrow>
          (case get_or_create_each slugify' faulty tbl1 ns of
             (tbl2, Inl err) \<Rightarrow> (tbl2, Inl err)
           | (tbl2, Inr cs) \<Rightarrow> (tbl2, Inr (c # cs))))"

text \<open>\<open>article.categories.add(*objs)\<close>: a pair for each object not yet related.\<close>

definition m2m_add :: "(nat \<times> nat) list \<Rightarrow> nat \<Rightarrow> slug_model list \<Rightarrow> (nat \<times> nat) list" where
  "m2m_add rel a objs =
     rel @ map (Pair a) (filter (\<lambda>i. (a, i) \<notin> set rel) (remdups (List.map_filter pk objs)))"

text \<open>
  Lines 72 to 92 of \<open>save_to_db\<close>: the names under the keys \<open>categories\<close> and \<open>tags\<close> (none
  when the key is absent or its list empty), each resolved in its table.
\<close>

definition category_names :: "data \<Rightarrow> string list" where
  "category_names dat = (case d_categories dat of None \<Rightarrow> [] | Some ns \<Rightarrow> ns)"

definition tag_names :: "data \<Rightarrow> string list" where
  "tag_names dat = (case d_tags dat of None \<Rightarrow> [] | Some ns \<Rightarrow> ns)"

definition resolve_categories ::
  "env \<Rightarrow> db \<Rightarrow> data \<Rightarrow> (slug_model list \<times> nat) \<times> (error + slug_model list)" where
  "resolve_categories e d dat =
     get_or_create_each (slugify e) (\<lambda>n. fails e (GetOrCreateCategory n))
       (category_table d, category_seq d) (category_names dat)"

definition resolve_tags ::
  "env \<Rightarrow> db \<Rightarrow> data \<Rightarrow> (slug_model list \<times> nat) \<times> (error + slug_model list)" where
  "resolve_tags e d dat =
     get_or_create_each (slugify e) (\<lambda>n. fails e (GetOrCreateTag n))
       (tag_table d, tag_seq d) (tag_names dat)"

text \<open>The row \<open>Article.objects.create\<close> is asked to insert, lines 101 to 110.\<close>

definition draft_row :: "data \<Rightarrow> string \<Rightarrow> string \<Rightarrow> string \<Rightarrow> article_row" where
  "draft_row dat t s u =
     \<lparr>pk = None, title = t,
      source_name = (case d_source_name dat of None \<Rightarrow> [] | Some x \<Rightarrow> x),
      original_url = Some u,
      publication_date = d_publication_date dat,
      authors = (case d_authors dat of None \<Rightarrow> [] | Some x \<Rightarrow> x),
      summary = s,
      full_text_content = Some (case d_full_text_content dat of None \<Rightarrow> [] | Some x \<Rightarrow> x),
      status = STATUS_DRAFT, published_at = None\<rparr>"

text \<open>
  Lines 100 to 121 of \<open>save_to_db\<close>: create the article, attach the categories and the
  tags, save again.  Every write is in the database as soon as it is made.
\<close>

definition create_article ::
  "env \<Rightarrow> db \<Rightarrow> data \<Rightarrow> string \<Rightarrow> slug_model list \<Rightarrow> slug_model list \<Rightarrow> db \<times> article option" where
  "create_article e d dat u categories' tags' =
     (case (d_title dat, d_summary dat) of
        (Some t, Some s) \<Rightarrow>
          (case Article_save (fails e ArticleCreate) (now e) d (Article_init (draft_row dat t s u)) of
             (a1, d3, Some err) \<Rightarrow> (d3, None)
           | (a1, d3, None) \<Rightarrow>
               (case pk a1 of
                  None \<Rightarrow> (d3, None)
                | Some k \<Rightarrow>
                    if categories' \<noteq> [] \<and> fails e CategoriesAdd then (d3, None)
                    else
                      let d4 = (if categories' \<noteq> []
                                then d3\<lparr>article_categories := m2m_add (article_categories d3) k categories'\<rparr>
                                else d3)
                      in if tags' \<noteq> [] \<and> fails e TagsAdd then (d4, None)
                         else
                           let d5 = (if tags' \<noteq> []
                                     then d4\<lparr>article_tags := m2m_add (article_tags d4) k tags'\<rparr>
                                     else d4)
                           in case Article_save (fails e ArticleSave) (now e) d5 a1 of
                                (a2, d6, Some err) \<Rightarrow> (d6, None)
                              | (a2, d6, None) \<Rightarrow> (d6, Some a2)))
      | _ \<Rightarrow> (d, None))"

text \<open>
  \<open>BaseParser.save_to_db\<close>.  Whatever is raised inside is caught and becomes the result
  \<open>None\<close>; the database is returned as the call leaves it.  \<open>filter(...).first()\<close> finds a row
  by its URL, which is unique in the table.
\<close>

definition save_to_db :: "env \<Rightarrow> db \<Rightarrow> data \<Rightarrow> db \<times> article option" where
  "save_to_db e d dat =
     (case resolve_categories e d dat of
        (ct, Inl err) \<Rightarrow> (d\<lparr>category_table := fst ct, category_seq := snd ct\<rparr>, None)
      | (ct, Inr categories') \<Rightarrow>
          (let d1 = d\<lparr>category_table := fst ct, category_seq := snd ct\<rparr>
           in case resolve_tags e d1 dat of
                (tt, Inl err) \<Rightarrow> (d1\<lparr>tag_table := fst tt, tag_seq := snd tt\<rparr>, None)
              | (tt, Inr tags') \<Rightarrow>
                  (let d2 = d1\<lparr>tag_table := fst tt, tag_seq := snd tt\<rparr>
                   in case d_original_url dat of
                        None \<Rightarrow> (d2, None)
                      | Some u \<Rightarrow>
                          if fails e ArticleFilter then (d2, None)
                          else (case find (\<lambda>r. original_url r = Some u) (article_table d2) of
                                  Some existing_article \<Rightarrow> (d2, Some (Article_init existing_article))
                                | None \<Rightarrow> create_article e d2 dat u categories' tags'))))"

text \<open>A database as the sequences leave it: every stored article has a key below the next one.\<close>

definition wf_db :: "db \<Rightarrow> bool" where
  "wf_db d = (\<forall>r \<in> set (article_table d). \<exists>k. pk r = Some k \<and> k < article_seq d)"

section \<open>cnbc_parser.py\<close>

text \<open>
  Each extraction method runs inside \<open>try\<close> and returns its fallback value on any
  exception; without a document (\<open>self.soup\<close> is \<open>None\<close>) the first access raises.
\<close>

definition Cnbc_extract_title :: "node list option \<Rightarrow> string" where
  "Cnbc_extract_title sp =
     (case sp of
        None \<Rightarrow> ''CNBC Article about Loneliness''
      | Some doc \<Rightarrow>
          (case find_first doc (is_tag [''h1'']) of
             Some title_element \<Rightarrow> strip (get_text title_element)
           | None \<Rightarrow>
               (case find_first doc (\<lambda>n. is_tag [''h1'', ''h2''] n
                        \<and> class_matches (re_search_any_i [''title'', ''headline'']) n) of
                  Some title_element \<Rightarrow> strip (get_text title_element)
                | None \<Rightarrow> ''CNBC Article about Loneliness'')))"

text \<open>
  The pattern \<open>(Published|Updated):?\s+([A-Za-z]{3}\s+\d{1,2},?\s+\d{4})\<close> at the head of a
  string, with its second group, and searched from left to right.  Each greedy part takes
  all it can: what follows it cannot start with a character it has left.
\<close>

definition match_published :: "string \<Rightarrow> string option" where
  "match_published s =
     (let r0 = (if startswith ''Published'' s then Some (drop 9 s)
                else if startswith ''Updated'' s then Some (drop 7 s) else None)
      in case r0 of
           None \<Rightarrow> None
         | Some r \<Rightarrow>
             (let r1 = (if startswith '':'' r then drop 1 r else r);
                  r2 = dropWhile isspace r1;
                  mon = take 3 r2;
                  r3 = drop 3 r2;
                  ws2 = takeWhile isspace r3;
                  r4 = dropWhile isspace r3;
                  day = takeWhile isdigit (take 2 r4);
                  r5 = drop (length day) r4;
                  comma = (if startswith '','' r5 then '','' else []);
                  r6 = drop (length comma) r5;
                  ws3 = takeWhile isspace r6;
                  r7 = dropWhile isspace r6;
                  year = take 4 r7
              in if takeWhile isspace r1 \<noteq> [] \<and> length mon = 3 \<and> (\<forall>c \<in> set mon. isalpha c)
                    \<and> ws2 \<noteq> [] \<and> day \<noteq> [] \<and> ws3 \<noteq> []
                    \<and> length year = 4 \<and> (\<forall>c \<in> set year. isdigit c)
                 then Some (mon @ ws2 @ day @ comma @ ws3 @ year) else None))"

fun search_published :: "string \<Rightarrow> string option" where
  "search_published [] = None"
| "search_published (c # cs) =
     (case match_published (c # cs) of Some g \<Rightarrow> Some g | None \<Rightarrow> search_published cs)"

definition Cnbc_extract_publication_date :: "env \<Rightarrow> node list option \<Rightarrow> date option" where
  "Cnbc_extract_publication_date e sp =
     (case sp of
        None \<Rightarrow> Some (today e)
      | Some doc \<Rightarrow>
          (case find_first doc (\<lambda>n. is_tag [''time'', ''span'', ''div''] n
                   \<and> attr ''data-testid'' n = Some ''publish-date'') of
             Some date_element \<Rightarrow>
               (case strptime e (strip (get_text date_element)) ''%b %d %Y'' of
                  Some d \<Rightarrow> Some d
                | None \<Rightarrow> Some (today e))
           | None \<Rightarrow>
               (case List.map_filter (\<lambda>n. search_published (get_text n))
                       (find_all doc (\<lambda>n. is_tag [''time'', ''span'', ''p''] n
                          \<and> (str_in ''published'' (lower (get_text n))
                               \<or> str_in ''updated'' (lower (get_text n))))) of
                  date_str # _ \<Rightarrow>
                    (case strptime e date_str ''%b %d, %Y'' of
                       Some d \<Rightarrow> Some d
                     | None \<Rightarrow> Some (today e))
                | [] \<Rightarrow> Some (today e))))"

text \<open>
  The pattern \<open>[bB]y\s+([A-Za-z\s\.]+)\<close> at the head of a string, with its group.  When
  nothing of the group follows the white space, the white space gives its last character
  back to the group, if it has two.
\<close>

definition in_author_class :: "char \<Rightarrow> bool" where
  "in_author_class c = (isalpha c \<or> isspace c \<or> c = CHR ''.'')"

definition match_by :: "string \<Rightarrow> string option" where
  "match_by s =
     (if startswith ''by'' s \<or> startswith ''By'' s
      then (let r = drop 2 s;
                ws = takeWhile isspace r;
                g = takeWhile in_author_class (dropWhile isspace r)
            in if ws = [] then None
               else if g \<noteq> [] then Some g
               else if 2 \<le> length ws then Some [last ws] else None)
      else None)"

fun search_by :: "string \<Rightarrow> string option" where
  "search_by [] = None"
| "search_by (c # cs) = (case match_by (c # cs) of Some g \<Rightarrow> Some g | None \<Rightarrow> search_by cs)"

definition Cnbc_extract_author :: "node list option \<Rightarrow> string" where
  "Cnbc_extract_author sp =
     (case sp of
        None \<Rightarrow> ''CNBC Staff''
      | Some doc \<Rightarrow>
          (case find_first doc (\<lambda>n. is_tag [''span'', ''div'', ''a''] n
                   \<and> class_matches (re_search_any_i [''author'', ''byline'']) n) of
             Some author_element \<Rightarrow> strip (get_text author_element)
           | None \<Rightarrow>
               (case List.map_filter (\<lambda>n. search_by (get_text n))
                       (find_all doc (\<lambda>n. is_tag [''p'', ''span'', ''div''] n
                          \<and> str_in ''by '' (lower (get_text n)))) of
                  g # _ \<Rightarrow> strip g
                | [] \<Rightarrow> ''CNBC Staff'')))"

definition loneliness_words :: "string list" where
  "loneliness_words = [''lone'', ''isolat'', ''disconnect'', ''social'']"

definition Cnbc_is_statistic :: "string \<Rightarrow> bool" where
  "Cnbc_is_statistic t =
     ((digit_then ''%'' t \<and> re_search_any_i loneliness_words t)
      \<or> (has_digit t \<and> re_search_any_i [''Cigna'', ''survey'', ''study'', ''report''] t
          \<and> re_search_any_i loneliness_words t))"

definition Cnbc_extract_statistics :: "node list option \<Rightarrow> string list" where
  "Cnbc_extract_statistics sp =
     (case sp of
        None \<Rightarrow> []
      | Some doc \<Rightarrow>
          filter Cnbc_is_statistic
            (map (\<lambda>n. strip (get_text n)) (find_all doc (is_tag [''p'', ''li'']))))"

definition Cnbc_extract_content :: "node list option \<Rightarrow> string" where
  "Cnbc_extract_content sp =
     (case sp of
        None \<Rightarrow> []
      | Some doc \<Rightarrow>
          (case find_first doc (\<lambda>n. is_tag [''div''] n
                   \<and> class_matches (re_search_any_i [''article-body'', ''content'', ''main'']) n) of
             Some content_container \<Rightarrow>
               join [CHR 0x0A, CHR 0x0A]
                 (filter (\<lambda>t. t \<noteq> [])
                    (map (\<lambda>n. strip (get_text n))
                       (find_all (children content_container)
                          (is_tag [''p'', ''h2'', ''h3'', ''blockquote'']))))
           | None \<Rightarrow>
               join [CHR 0x0A, CHR 0x0A]
                 (filter (\<lambda>t. 30 < length t)
                    (map (\<lambda>n. strip (get_text n)) (find_all doc (is_tag [''p'']))))))"

text \<open>
  \<open>re.split(r'(?<=[.!?])\s+', content)\<close>: the text is cut at each run of white space that
  follows a full stop, an exclamation mark or a question mark, and the run is dropped.
  \<open>cur\<close> is the piece being read, backwards; \<open>gap\<close> says that such a run is being skipped.
\<close>

fun split_sentences_from :: "string \<Rightarrow> bool \<Rightarrow> string \<Rightarrow> string list" where
  "split_sentences_from cur gap [] = [rev cur]"
| "split_sentences_from cur gap (c # cs) =
     (if gap \<and> isspace c then split_sentences_from cur True cs
      else if \<not> gap \<and> isspace c
              \<and> (case cur of [] \<Rightarrow> False | x # _ \<Rightarrow> x \<in> set ''.!?'')
        then rev cur # split_sentences_from [] True cs
      else split_sentences_from (c # cur) False cs)"

definition split_sentences :: "string \<Rightarrow> string list" where
  "split_sentences content = split_sentences_from [] False content"

definition is_relevant :: "string \<Rightarrow> bool" where
  "is_relevant sentence =
     re_search_any_i [''lone'', ''isolat'', ''disconnect'', ''social'', ''Cigna'', ''health''] sentence"

text \<open>The loop of \<open>create_summary\<close> over the first five sentences, with its \<open>break\<close>.\<close>

fun relevant_sentences :: "string list \<Rightarrow> string list \<Rightarrow> string list" where
  "relevant_sentences acc [] = acc"
| "relevant_sentences acc (sentence # rest) =
     (let acc' = (if is_relevant sentence then acc @ [sentence] else acc)
      in if 3 \<le> length acc' then acc' else relevant_sentences acc' rest)"

text \<open>The literals of \<open>create_summary\<close>, in Russian in the source, as UTF-8.\<close>

definition BULLET :: string where
  "BULLET = map char_of
      [226, 128, 162, 32 :: nat]"

definition CNBC_LEAD_IN :: string where
  "CNBC_LEAD_IN = map char_of
      [208, 158, 209, 129, 208, 189, 208, 190, 208, 178, 208, 189, 209, 139, 208, 181, 32,
       209, 129, 209, 130, 208, 176, 209, 130, 208, 184, 209, 129, 209, 130, 208, 184, 209,
       135, 208, 181, 209, 129, 208, 186, 208, 184, 208, 181, 32, 208, 180, 208, 176, 208,
       189, 208, 189, 209, 139, 208, 181, 32, 208, 184, 208, 183, 32, 208, 184, 209, 129,
       209, 129, 208, 187, 208, 181, 208, 180, 208, 190, 208, 178, 208, 176, 208, 189, 208,
       184, 209, 143, 32, 67, 105, 103, 110, 97, 32, 208, 190, 32, 208, 190, 208, 180, 208,
       184, 208, 189, 208, 190, 209, 135, 208, 181, 209, 129, 209, 130, 208, 178, 208, 181,
       58, 10, 10 :: nat]"

definition CNBC_FALLBACK_SUMMARY :: string where
  "CNBC_FALLBACK_SUMMARY = map char_of
      [208, 161, 209, 130, 208, 176, 209, 130, 209, 140, 209, 143, 32, 67, 78, 66, 67, 32,
       208, 190, 208, 177, 32, 208, 184, 209, 129, 209, 129, 208, 187, 208, 181, 208, 180,
       208, 190, 208, 178, 208, 176, 208, 189, 208, 184, 208, 184, 32, 67, 105, 103, 110,
       97, 32, 208, 190, 32, 209, 129, 208, 190, 209, 129, 209, 130, 208, 190, 209, 143,
       208, 189, 208, 184, 208, 184, 32, 208, 190, 208, 180, 208, 184, 208, 189, 208, 190,
       209, 135, 208, 181, 209, 129, 209, 130, 208, 178, 208, 176, 32, 208, 184, 32, 208,
       181, 208, 179, 208, 190, 32, 208, 178, 208, 187, 208, 184, 209, 143, 208, 189, 208,
       184, 208, 184, 32, 208, 189, 208, 176, 32, 208, 183, 208, 180, 208, 190, 209, 128,
       208, 190, 208, 178, 209, 140, 208, 181, 46 :: nat]"

definition Cnbc_create_summary :: "string list \<Rightarrow> string \<Rightarrow> string" where
  "Cnbc_create_summary statistics content =
     (if statistics \<noteq> []
      then CNBC_LEAD_IN @ join [CHR 0x0A] (map (\<lambda>stat. BULLET @ stat) (take 3 statistics))
      else if content \<noteq> []
              \<and> relevant_sentences [] (take 5 (split_sentences content)) \<noteq> []
        then join '' '' (relevant_sentences [] (take 5 (split_sentences content)))
      else CNBC_FALLBACK_SUMMARY)"

text \<open>The tags of \<open>CnbcParser.parse\<close>, lines 189 to 198; \<open>gen ?z\<close> has an optional space.\<close>

definition Cnbc_tags :: "string \<Rightarrow> string list" where
  "Cnbc_tags content =
     [''loneliness'', ''health'', ''Cigna'', ''survey'']
     @ (if re_search_any_i [''genz'', ''gen z''] content then [''Gen Z''] else [])
     @ (if re_search_any_i [''millennials''] content then [''millennials''] else [])
     @ (if re_search_any_i [''social media''] content then [''social media''] else [])
     @ (if re_search_any_i [''mental health''] content then [''mental health''] else [])"

section \<open>roots_of_loneliness_parser.py\<close>

definition Roots_extract_title :: "node list option \<Rightarrow> string" where
  "Roots_extract_title sp =
     (case sp of
        None \<Rightarrow> ''Loneliness Statistics''
      | Some doc \<Rightarrow>
          (case find_first doc (is_tag [''h1'']) of
             Some title_element \<Rightarrow> strip (get_text title_element)
           | None \<Rightarrow> ''Loneliness Statistics''))"

text \<open>
  The pattern \<open>Updated: ([A-Za-z]+ \d+, \d{4})\<close> at the head of a string, with its group,
  and searched from left to right.
\<close>

definition match_updated :: "string \<Rightarrow> string option" where
  "match_updated s =
     (if startswith ''Updated: '' s
      then (let r = drop 9 s;
                month = takeWhile isalpha r;
                r1 = dropWhile isalpha r;
                day = takeWhile isdigit (drop 1 r1);
                r2 = dropWhile isdigit (drop 1 r1);
                year = take 4 (drop 2 r2)
            in if month \<noteq> [] \<and> startswith '' '' r1 \<and> day \<noteq> [] \<and> startswith '', '' r2
                  \<and> length year = 4 \<and> (\<forall>c \<in> set year. isdigit c)
               then Some (month @ '' '' @ day @ '', '' @ year) else None)
      else None)"

fun search_updated :: "string \<Rightarrow> string option" where
  "search_updated [] = None"
| "search_updated (c # cs) =
     (case match_updated (c # cs) of Some g \<Rightarrow> Some g | None \<Rightarrow> search_updated cs)"

definition Roots_extract_publication_date :: "env \<Rightarrow> node list option \<Rightarrow> date option" where
  "Roots_extract_publication_date e sp =
     (case sp of
        None \<Rightarrow> Some (today e)
      | Some doc \<Rightarrow>
          (case find_first doc (\<lambda>n. is_tag [''p'', ''div'', ''span''] n
                   \<and> str_in ''updated'' (lower (get_text n))) of
             None \<Rightarrow> Some (today e)
           | Some element \<Rightarrow>
               (case search_updated (get_text element) of
                  None \<Rightarrow> Some (today e)
                | Some date_str \<Rightarrow>
                    (case strptime e date_str ''%B %d, %Y'' of
                       Some d \<Rightarrow> Some d
                     | None \<Rightarrow> Some (today e)))))"

definition Roots_is_statistic :: "string \<Rightarrow> bool" where
  "Roots_is_statistic t = (digit_then ''%'' t \<or> digit_then '' percent'' t \<or> digit_in_digit t)"

definition Roots_extract_statistics :: "node list option \<Rightarrow> string list" where
  "Roots_extract_statistics sp =
     (case sp of
        None \<Rightarrow> []
      | Some doc \<Rightarrow>
          filter Roots_is_statistic
            (map (\<lambda>n. strip (get_text n)) (find_all doc (is_tag [''li'', ''p'']))))"

definition Roots_extract_content :: "node list option \<Rightarrow> string" where
  "Roots_extract_content sp =
     (case sp of
        None \<Rightarrow> []
      | Some doc \<Rightarrow>
          (case (case find_first doc (is_tag [''article'']) of
                   Some c \<Rightarrow> Some c
                 | None \<Rightarrow> find_first doc (\<lambda>n. is_tag [''div''] n
                       \<and> class_matches (re_search_any [''content'', ''main'', ''article'']) n)) of
             Some content_container \<Rightarrow>
               join [CHR 0x0A, CHR 0x0A]
                 (filter (\<lambda>t. t \<noteq> [])
                    (map (\<lambda>n. strip (get_text n))
                       (find_all (children content_container)
                          (is_tag [''p'', ''h2'', ''h3'', ''ul'', ''ol'']))))
           | None \<Rightarrow>
               join [CHR 0x0A, CHR 0x0A]
                 (filter (\<lambda>t. t \<noteq> [] \<and> 50 < length t)
                    (map (\<lambda>n. strip (get_text n)) (find_all doc (is_tag [''p'']))))))"

definition ROOTS_LEAD_IN :: string where
  "ROOTS_LEAD_IN = map char_of
      [208, 154, 208, 187, 209, 142, 209, 135, 208, 181, 208, 178, 209, 139, 208, 181, 32,
       209, 129, 209, 130, 208, 176, 209, 130, 208, 184, 209, 129, 209, 130, 208, 184, 209,
       135, 208, 181, 209, 129, 208, 186, 208, 184, 208, 181, 32, 208, 180, 208, 176, 208,
       189, 208, 189, 209, 139, 208, 181, 32, 208, 190, 208, 177, 32, 208, 190, 208, 180,
       208, 184, 208, 189, 208, 190, 209, 135, 208, 181, 209, 129, 209, 130, 208, 178, 208,
       181, 58, 10, 10 :: nat]"

definition ROOTS_FALLBACK_SUMMARY :: string where
  "ROOTS_FALLBACK_SUMMARY = map char_of
      [208, 161, 209, 130, 208, 176, 209, 130, 208, 184, 209, 129, 209, 130, 208, 184, 209,
       135, 208, 181, 209, 129, 208, 186, 208, 184, 208, 181, 32, 208, 180, 208, 176, 208,
       189, 208, 189, 209, 139, 208, 181, 32, 208, 190, 208, 177, 32, 208, 190, 208, 180,
       208, 184, 208, 189, 208, 190, 209, 135, 208, 181, 209, 129, 209, 130, 208, 178, 208,
       181, 32, 208, 184, 32, 209, 129, 208, 190, 209, 134, 208, 184, 208, 176, 208, 187,
       209, 140, 208, 189, 209, 139, 209, 133, 32, 209, 129, 208, 178, 209, 143, 208, 183,
       209, 143, 209, 133, 46 :: nat]"

definition Roots_create_summary :: "string list \<Rightarrow> string" where
  "Roots_create_summary statistics =
     (if statistics = [] then ROOTS_FALLBACK_SUMMARY
      else ROOTS_LEAD_IN @ join [CHR 0x0A] (map (\<lambda>stat. BULLET @ stat) (take 5 statistics)))"

section \<open>Fetching and parsing\<close>

text \<open>
  What changes while the program runs: the database, and how many requests have gone to
  the network.
\<close>

record world =
  store :: db
  requests :: nat

text \<open>\<open>BaseParser.fetch_content\<close>: one request; on success the parser holds the document.\<close>

definition fetch_content :: "env \<Rightarrow> world \<Rightarrow> parser \<Rightarrow> bool \<times> parser \<times> world" where
  "fetch_content e w p =
     (case web e (requests w) (url p) of
        None \<Rightarrow> (False, p, w\<lparr>requests := Suc (requests w)\<rparr>)
      | Some doc \<Rightarrow> (True, p\<lparr>soup := Some doc\<rparr>, w\<lparr>requests := Suc (requests w)\<rparr>))"

text \<open>The empty dictionary, which \<open>parse\<close> returns when there is no document.\<close>

definition empty_dict :: data where
  "empty_dict = \<lparr>d_title = None, d_summary = None, d_source_name = None, d_original_url = None,
                 d_publication_date = None, d_authors = None, d_full_text_content = None,
                 d_categories = None, d_tags = None\<rparr>"

definition Cnbc_result :: "env \<Rightarrow> parser \<Rightarrow> data" where
  "Cnbc_result e p =
     (let title' = Cnbc_extract_title (soup p);
          publication_date' = Cnbc_extract_publication_date e (soup p);
          author = Cnbc_extract_author (soup p);
          statistics = Cnbc_extract_statistics (soup p);
          content = Cnbc_extract_content (soup p);
          summary' = Cnbc_create_summary statistics content
      in \<lparr>d_title = Some title', d_summary = Some summary', d_source_name = Some ''CNBC'',
          d_original_url = Some (url p), d_publication_date = publication_date',
          d_authors = Some author, d_full_text_content = Some content,
          d_categories = Some [''Health Research'', ''Corporate Studies''],
          d_tags = Some (Cnbc_tags content)\<rparr>)"

definition Roots_result :: "env \<Rightarrow> parser \<Rightarrow> data" where
  "Roots_result e p =
     (let title' = Roots_extract_title (soup p);
          publication_date' = Roots_extract_publication_date e (soup p);
          statistics = Roots_extract_statistics (soup p);
          full_content = Roots_extract_content (soup p);
          summary' = Roots_create_summary statistics
      in \<lparr>d_title = Some title', d_summary = Some summary',
          d_source_name = Some ''Roots Of Loneliness'',
          d_original_url = Some (url p), d_publication_date = publication_date',
          d_authors = Some ''Roots Of Loneliness Team'', d_full_text_content = Some full_content,
          d_categories = Some [''Statistics'', ''Loneliness Research''],
          d_tags = Some [''loneliness'', ''statistics'', ''social isolation'', ''mental health'']\<rparr>)"

text \<open>
  \<open>parse\<close> of either class: fetch when the parser holds no document, give up with the empty
  dictionary when that fails, otherwise build the record of the class.
\<close>

definition parse :: "env \<Rightarrow> world \<Rightarrow> parser \<Rightarrow> data \<times> parser \<times> world" where
  "parse e w p =
     (case (if soup p = None then fetch_content e w p else (True, p, w)) of
        (ok, p1, w1) \<Rightarrow>
          if \<not> ok then (empty_dict, p1, w1)
          else (case cls p1 of
                  CnbcParser \<Rightarrow> (Cnbc_result e p1, p1, w1)
                | RootsOfLonelinessParser \<Rightarrow> (Roots_result e p1, p1, w1)))"

section \<open>parser_manager.py: one URL and many\<close>

definition parse_url :: "env \<Rightarrow> world \<Rightarrow> string \<Rightarrow> article option \<times> world" where
  "parse_url e w u =
     (case get_parser_for_url parsers u of
        None \<Rightarrow> (None, w)
      | Some p \<Rightarrow>
          (case parse e w p of
             (dat, p1, w1) \<Rightarrow>
               if dat = empty_dict then (None, w1)
               else (case save_to_db e (store w1) dat of
                       (d', article) \<Rightarrow> (article, w1\<lparr>store := d'\<rparr>))))"

text \<open>\<open>results[url] = v\<close> on a dict kept in insertion order.\<close>

fun dict_set :: "(string \<times> 'v) list \<Rightarrow> string \<Rightarrow> 'v \<Rightarrow> (string \<times> 'v) list" where
  "dict_set [] k v = [(k, v)]"
| "dict_set ((k', v') # kvs) k v =
     (if k' = k then (k, v) # kvs else (k', v') # dict_set kvs k v)"

text \<open>
  The loop of \<open>parse_multiple_urls\<close>, for any way of handling one URL: \<open>step\<close> returns what the
  call in the \<open>try\<close> returns, or the exception it raises, and the world as it leaves it.
\<close>

fun for_each_url ::
  "('w \<Rightarrow> string \<Rightarrow> (error + 'a option) \<times> 'w) \<Rightarrow> (string \<times> 'a option) list \<Rightarrow> 'w \<Rightarrow> string list
   \<Rightarrow> (string \<times> 'a option) list \<times> 'w" where
  "for_each_url step results w [] = (results, w)"
| "for_each_url step results w (u # us) =
     (case step w u of
        (Inr article, w') \<Rightarrow> for_each_url step (dict_set results u article) w' us
      | (Inl exc, w') \<Rightarrow> for_each_url step (dict_set results u None) w' us)"

text \<open>
  \<open>parse_multiple_urls\<close>.  \<open>parse_url\<close> with the two parsers of the registry raises nothing:
  each of its steps catches what it raises.
\<close>

definition try_parse_url :: "env \<Rightarrow> world \<Rightarrow> string \<Rightarrow> (error + article option) \<times> world" where
  "try_parse_url e w u = (case parse_url e w u of (article, w') \<Rightarrow> (Inr article, w'))"

definition parse_multiple_urls ::
  "env \<Rightarrow> world \<Rightarrow> string list \<Rightarrow> (string \<times> article option) list \<times> world" where
  "parse_multiple_urls e w urls = for_each_url (try_parse_url e) [] w urls"

section \<open>Concrete surroundings for the examples\<close>

text \<open>
  \<open>django.utils.text.slugify\<close> on ASCII text: lower case, drop what is not a word character,
  white space or a hyphen, turn each run of hyphens and white space into one hyphen, strip
  hyphens and underscores at both ends.
\<close>

definition slugify_keeps :: "char \<Rightarrow> bool" where
  "slugify_keeps c = (isalpha c \<or> isdigit c \<or> c = CHR ''_'' \<or> isspace c \<or> c = CHR ''-'')"

fun hyphenate :: "bool \<Rightarrow> string \<Rightarrow> string" where
  "hyphenate inside [] = []"
| "hyphenate inside (c # cs) =
     (if c = CHR ''-'' \<or> isspace c
      then (if inside then hyphenate True cs else CHR ''-'' # hyphenate True cs)
      else c # hyphenate False cs)"

definition django_slugify :: "string \<Rightarrow> string" where
  "django_slugify v =
     strip_chars (\<lambda>c. c = CHR ''-'' \<or> c = CHR ''_'') (hyphenate False (filter slugify_keeps (lower v)))"

text \<open>An environment in which the network serves nothing and the database never fails.\<close>

definition quiet_env :: env where
  "quiet_env = \<lparr>slugify = django_slugify, strptime = (\<lambda>s fmt. None), now = 1000,
                today = (2025, 4, 2), web = (\<lambda>n u. None), fails = (\<lambda>st. False)\<rparr>"

definition empty_db :: db where
  "empty_db = \<lparr>category_table = [], category_seq = 1, tag_table = [], tag_seq = 1,
               article_table = [], article_seq = 1, article_categories = [], article_tags = []\<rparr>"

text \<open>
  A record as \<open>CnbcParser.parse\<close> builds it, with the given tags, and a database in which an
  editor has given the tag \<open>Gen Z\<close> a slug of their own.
\<close>

definition cnbc_record :: "string list \<Rightarrow> data" where
  "cnbc_record tags' =
     \<lparr>d_title = Some ''Loneliness at work'', d_summary = Some ''A study.'',
      d_source_name = Some ''CNBC'', d_original_url = Some ''https://www.cnbc.com/loneliness'',
      d_publication_date = Some (2025, 4, 2), d_authors = Some ''CNBC Staff'',
      d_full_text_content = Some ''Text.'',
      d_categories = Some [''Health Research'', ''Corporate Studies''], d_tags = Some tags'\<rparr>"

definition edited_db :: db where
  "edited_db = empty_db\<lparr>tag_table := [\<lparr>pk = Some 1, name = ''Gen Z'', slug = ''genz''\<rparr>],
                        tag_seq := 2\<rparr>"

text \<open>An environment in which the database fails at one operation of the commit.\<close>

definition broken_at :: "step \<Rightarrow> env" where
  "broken_at st = quiet_env\<lparr>fails := (\<lambda>x. x = st)\<rparr>"

section \<open>Properties of the strings\<close>

lemma startswith_iff: "startswith p s \<longleftrightarrow> (\<exists>post. s = p @ post)"
  by (induction p s rule: startswith.induct) auto

lemma str_in_iff: "str_in d s \<longleftrightarrow> (\<exists>pre post. s = pre @ d @ post)"
proof (induction s)
  case Nil
  then show ?case by simp
next
  case (Cons c cs)
  show ?case
  proof
    assume "str_in d (c # cs)"
    then consider "startswith d (c # cs)" | "str_in d cs" by auto
    then show "\<exists>pre post. c # cs = pre @ d @ post"
    proof cases
      case 1
      then obtain post where "c # cs = d @ post" by (auto simp: startswith_iff)
      then have "c # cs = [] @ d @ post" by simp
      then show ?thesis by blast
    next
      case 2
      then obtain pre post where "cs = pre @ d @ post" using Cons.IH by blast
      then have "c # cs = (c # pre) @ d @ post" by simp
      then show ?thesis by blast
    qed
  next
    assume "\<exists>pre post. c # cs = pre @ d @ post"
    then obtain pre post where e: "c # cs = pre @ d @ post" by blast
    show "str_in d (c # cs)"
    proof (cases pre)
      case Nil
      with e have "startswith d (c # cs)" by (auto simp: startswith_iff)
      then show ?thesis by simp
    next
      case (Cons a pre')
      with e have "cs = pre' @ d @ post" by simp
      then have "str_in d cs" using Cons.IH by blast
      then show ?thesis by simp
    qed
  qed
qed

section \<open>Properties of the dispatcher\<close>

lemma get_parser_for_url_None:
  "get_parser_for_url R u = None \<longleftrightarrow> (\<forall>e \<in> set R. \<not> str_in (fst e) u)"
  by (induction R u rule: get_parser_for_url.induct) auto

lemma get_parser_for_url_first:
  "i < length R \<Longrightarrow> str_in (fst (R ! i)) u \<Longrightarrow> (\<forall>j < i. \<not> str_in (fst (R ! j)) u)
   \<Longrightarrow> get_parser_for_url R u = Some (new_parser (snd (R ! i)) u)"
proof (induction R u arbitrary: i rule: get_parser_for_url.induct)
  case (1 u)
  then show ?case by simp
next
  case (2 domain parser_class rest u)
  show ?case
  proof (cases i)
    case 0
    with 2 show ?thesis by simp
  next
    case (Suc k)
    with "2.prems" have "\<not> str_in domain u" by fastforce
    moreover have "get_parser_for_url rest u = Some (new_parser (snd (rest ! k)) u)"
    proof (rule "2.IH")
      show "\<not> str_in domain u" by fact
      show "k < length rest" using "2.prems" Suc by simp
      show "str_in (fst (rest ! k)) u" using "2.prems" Suc by simp
      show "\<forall>j<k. \<not> str_in (fst (rest ! j)) u"
      proof (intro allI impI)
        fix j assume "j < k"
        then have "Suc j < i" using Suc by simp
        then have "\<not> str_in (fst (((domain, parser_class) # rest) ! Suc j)) u"
          using "2.prems" by blast
        then show "\<not> str_in (fst (rest ! j)) u" by simp
      qed
    qed
    ultimately show ?thesis using Suc by simp
  qed
qed

text \<open>
  C5. The dispatcher returns a parser of the first registered strategy, in registration order,
  whose domain occurs anywhere in the URL as a contiguous substring, whatever the later
  entries are; it returns \<open>None\<close> exactly when no registered domain occurs in the URL.
\<close>

theorem C5_first_match_wins:
  "(get_parser_for_url R u = None \<longleftrightarrow>
      (\<forall>e \<in> set R. \<not> (\<exists>pre post. u = pre @ fst e @ post)))
   \<and> (\<forall>i < length R. (\<exists>pre post. u = pre @ fst (R ! i) @ post)
        \<and> (\<forall>j < i. \<not> (\<exists>pre post. u = pre @ fst (R ! j) @ post))
      \<longrightarrow> get_parser_for_url R u = Some (new_parser (snd (R ! i)) u))"
  using get_parser_for_url_None [of R u] get_parser_for_url_first [of _ R u]
  by (simp add: str_in_iff)

theorem C5_first_match_wins_witness:
  "(\<exists>pre post. ''http://a.com.evil.com/x'' = pre @ ''a.com'' @ post)
   \<and> get_parser_for_url
        [(''a.com'', RootsOfLonelinessParser), (''a.com.evil.com'', CnbcParser)]
        ''http://a.com.evil.com/x''
      = Some (new_parser RootsOfLonelinessParser ''http://a.com.evil.com/x'')"
proof -
  let ?R = "[(''a.com'', RootsOfLonelinessParser), (''a.com.evil.com'', CnbcParser)]"
  let ?u = "''http://a.com.evil.com/x''"
  have "str_in ''a.com'' ?u" by simp
  then have h0: "\<exists>pre post. ?u = pre @ ''a.com'' @ post"
    unfolding str_in_iff .
  have "fst (?R ! 0) = ''a.com''" by simp
  with h0 have h: "\<exists>pre post. ?u = pre @ fst (?R ! 0) @ post"
    by (simp only:)
  have "\<forall>i < length ?R. (\<exists>pre post. ?u = pre @ fst (?R ! i) @ post)
        \<and> (\<forall>j < i. \<not> (\<exists>pre post. ?u = pre @ fst (?R ! j) @ post))
      \<longrightarrow> get_parser_for_url ?R ?u = Some (new_parser (snd (?R ! i)) ?u)"
    using C5_first_match_wins [of ?R ?u] by blast
  then have "get_parser_for_url ?R ?u = Some (new_parser (snd (?R ! 0)) ?u)"
    using h by (metis length_greater_0_conv list.distinct(1) not_less_zero)
  then show ?thesis using h0 by simp
qed

section \<open>Properties of Article.save\<close>

lemma Article_save_published_at:
  "published_at (fst (Article_save fault tm d a)) =
     (if status a = STATUS_PUBLISHED \<and> original_status a \<noteq> Some STATUS_PUBLISHED
         \<and> published_at a = None
      then Some tm else published_at a)"
  by (simp add: Article_save_def Let_def split: prod.splits sum.splits)

lemma run_ops_published_at:
  "published_at a = Some t \<Longrightarrow> published_at (fst (run_ops ops d a)) = Some t"
proof (induction ops d a rule: run_ops.induct)
  case (1 d a)
  then show ?case by simp
next
  case (2 s ops d a)
  then show ?case by simp
next
  case (3 fault tm ops d a)
  obtain a' d' r where s: "Article_save fault tm d a = (a', d', r)"
    by (cases "Article_save fault tm d a")
  have "published_at a' = Some t"
    using Article_save_published_at [of fault tm d a] s "3.prems" by simp
  then show ?case using "3.IH" s by simp
qed

text \<open>
  C10. \<open>Article.save\<close> assigns the current time to \<open>published_at\<close> exactly when the status is
  PUBLISHED, the status the instance was loaded or last saved with is not, and
  \<open>published_at\<close> is unset; otherwise it leaves \<open>published_at\<close> as it is.  So a timestamp, once
  set, survives every later sequence of status changes and saves (saving again, reverting
  the status and publishing again), whether the database accepts the writes or not.
\<close>

theorem C10_published_at_set_once:
  "published_at (fst (Article_save fault tm d a)) =
     (if status a = STATUS_PUBLISHED \<and> original_status a \<noteq> Some STATUS_PUBLISHED
         \<and> published_at a = None
      then Some tm else published_at a)
   \<and> (published_at a = Some t \<longrightarrow> published_at (fst (run_ops ops d a)) = Some t)"
  using Article_save_published_at [of fault tm d a] run_ops_published_at [of a t ops d]
  by blast

theorem C10_published_at_set_once_witness:
  "published_at (Article_init \<lparr>pk = Some 1, title = ''t'', source_name = '''', original_url = None,
       publication_date = None, authors = '''', summary = ''s'', full_text_content = None,
       status = STATUS_PUBLISHED, published_at = Some 7\<rparr>) = Some 7
   \<and> published_at (fst (run_ops
         [Save False 8, SetStatus STATUS_DRAFT, Save False 9, SetStatus STATUS_PUBLISHED, Save True 10]
         \<lparr>category_table = [], category_seq = 1, tag_table = [], tag_seq = 1,
          article_table = [\<lparr>pk = Some 1, title = ''t'', source_name = '''', original_url = None,
            publication_date = None, authors = '''', summary = ''s'', full_text_content = None,
            status = STATUS_PUBLISHED, published_at = Some 7\<rparr>],
          article_seq = 2, article_categories = [], article_tags = []\<rparr>
         (Article_init \<lparr>pk = Some 1, title = ''t'', source_name = '''', original_url = None,
            publication_date = None, authors = '''', summary = ''s'', full_text_content = None,
            status = STATUS_PUBLISHED, published_at = Some 7\<rparr>))) = Some 7"
  (is "?h \<and> published_at (fst (run_ops ?ops ?d ?a)) = Some 7")
proof -
  have h: ?h by (simp add: Article_init_def article_row.defs article.defs)
  then show ?thesis
    using C10_published_at_set_once [of False 0 ?d ?a 7 ?ops] by blast
qed

section \<open>Properties of the commit\<close>

lemma find_append_Some: "find P xs = Some x \<Longrightarrow> find P (xs @ ys) = Some x"
  by (induction xs) (auto split: if_splits)

lemma find_append_None: "find P xs = None \<Longrightarrow> find P (xs @ ys) = find P ys"
  by (induction xs) (auto split: if_splits)

lemma get_or_create_hit:
  "\<not> fault \<Longrightarrow> find (\<lambda>r. slug r = s) (fst tbl) = Some r
   \<Longrightarrow> get_or_create sl fault tbl s nm = (tbl, Inr r)"
  by (simp add: get_or_create_def)

lemma get_or_create_Inl:
  "get_or_create sl fault tbl s nm = (tbl', Inl err) \<Longrightarrow> tbl' = tbl"
  by (auto simp: get_or_create_def SlugMixin_save_def slug_model_write_def Let_def
      split: if_splits option.splits)

lemma get_or_create_Inr:
  assumes "get_or_create sl fault tbl (sl nm) nm = (tbl', Inr c)"
  shows "\<not> fault \<and>
         ((find (\<lambda>r. slug r = sl nm) (fst tbl) = Some c \<and> tbl' = tbl)
          \<or> (find (\<lambda>r. slug r = sl nm) (fst tbl) = None
              \<and> tbl' = (fst tbl @ [c], Suc (snd tbl))
              \<and> c = \<lparr>pk = Some (snd tbl), name = nm, slug = sl nm\<rparr>))"
  using assms
  by (auto simp: get_or_create_def SlugMixin_save_def slug_model_write_def Let_def
      split: if_splits option.splits)


lemma get_or_create_each_grows:
  "get_or_create_each sl faulty tbl ns = (tbl', r) \<Longrightarrow> \<exists>new. fst tbl' = fst tbl @ new"
proof (induction ns arbitrary: tbl tbl' r)
  case Nil
  then show ?case by simp
next
  case (Cons n ns)
  obtain tbl1 r1 where g: "get_or_create sl (faulty n) tbl (sl n) n = (tbl1, r1)"
    by (cases "get_or_create sl (faulty n) tbl (sl n) n")
  show ?case
  proof (cases r1)
    case (Inl err)
    with g have "tbl1 = tbl" by (simp add: get_or_create_Inl)
    with Cons.prems g Inl show ?thesis by simp
  next
    case (Inr c)
    with g have s1: "\<exists>new. fst tbl1 = fst tbl @ new"
      using get_or_create_Inr [of sl "faulty n" tbl n tbl1 c] by auto
    obtain tbl2 r2 where e: "get_or_create_each sl faulty tbl1 ns = (tbl2, r2)"
      by (cases "get_or_create_each sl faulty tbl1 ns")
    then have s2: "\<exists>new. fst tbl2 = fst tbl1 @ new" using Cons.IH by blast
    have "tbl' = tbl2" using Cons.prems g Inr e by (cases r2) auto
    with s1 s2 show ?thesis by auto
  qed
qed

lemma get_or_create_each_found:
  "get_or_create_each sl faulty tbl ns = (tbl', Inr cs) \<Longrightarrow>
   length cs = length ns
   \<and> (\<forall>i < length ns. find (\<lambda>r. slug r = sl (ns ! i)) (fst tbl') = Some (cs ! i))"
proof (induction ns arbitrary: tbl tbl' cs)
  case Nil
  then show ?case by simp
next
  case (Cons n ns)
  obtain tbl1 r1 where g: "get_or_create sl (faulty n) tbl (sl n) n = (tbl1, r1)"
    by (cases "get_or_create sl (faulty n) tbl (sl n) n")
  obtain c where r1: "r1 = Inr c" using Cons.prems g by (cases r1) auto
  obtain tbl2 r2 where e: "get_or_create_each sl faulty tbl1 ns = (tbl2, r2)"
    by (cases "get_or_create_each sl faulty tbl1 ns")
  obtain cs' where r2: "r2 = Inr cs'" using Cons.prems g r1 e by (cases r2) auto
  have eq: "tbl' = tbl2" "cs = c # cs'" using Cons.prems g r1 e r2 by auto
  have ih: "length cs' = length ns
     \<and> (\<forall>i < length ns. find (\<lambda>r. slug r = sl (ns ! i)) (fst tbl2) = Some (cs' ! i))"
    using Cons.IH e r2 by blast
  have f1: "find (\<lambda>r. slug r = sl n) (fst tbl1) = Some c"
    using get_or_create_Inr [of sl "faulty n" tbl n tbl1 c] g r1
    by (auto simp: find_append_None)
  obtain new where "fst tbl2 = fst tbl1 @ new"
    using get_or_create_each_grows [OF e] by blast
  with f1 have f2: "find (\<lambda>r. slug r = sl n) (fst tbl2) = Some c"
    by (simp add: find_append_Some)
  show ?case
  proof (intro conjI allI impI)
    show "length cs = length (n # ns)" using eq ih by simp
  next
    fix i assume "i < length (n # ns)"
    then show "find (\<lambda>r. slug r = sl ((n # ns) ! i)) (fst tbl') = Some (cs ! i)"
      using eq ih f2 by (cases i) auto
  qed
qed

lemma get_or_create_each_hits:
  "\<forall>n \<in> set ns. \<not> faulty n \<and> find (\<lambda>r. slug r = sl n) (fst tbl) \<noteq> None \<Longrightarrow>
   get_or_create_each sl faulty tbl ns
     = (tbl, Inr (map (\<lambda>n. the (find (\<lambda>r. slug r = sl n) (fst tbl))) ns))"
  by (induction ns) (auto simp: get_or_create_hit)

lemma get_or_create_each_not_faulty:
  "get_or_create_each sl faulty tbl ns = (tbl', Inr cs) \<Longrightarrow> \<forall>n \<in> set ns. \<not> faulty n"
proof (induction ns arbitrary: tbl tbl' cs)
  case Nil
  then show ?case by simp
next
  case (Cons n ns)
  obtain tbl1 r1 where g: "get_or_create sl (faulty n) tbl (sl n) n = (tbl1, r1)"
    by (cases "get_or_create sl (faulty n) tbl (sl n) n")
  obtain c where r1: "r1 = Inr c" using Cons.prems g by (cases r1) auto
  obtain tbl2 r2 where e: "get_or_create_each sl faulty tbl1 ns = (tbl2, r2)"
    by (cases "get_or_create_each sl faulty tbl1 ns")
  obtain cs' where r2: "r2 = Inr cs'" using Cons.prems g r1 e by (cases r2) auto
  have "\<not> faulty n" using get_or_create_Inr [of sl "faulty n" tbl n tbl1 c] g r1 by simp
  moreover have "\<forall>n \<in> set ns. \<not> faulty n" using Cons.IH e r2 by blast
  ultimately show ?case by simp
qed


lemma get_or_create_each_created:
  "get_or_create_each sl faulty tbl ns = (tbl', Inr cs) \<Longrightarrow> i < length ns \<Longrightarrow>
   find (\<lambda>r. slug r = sl (ns ! i)) (fst tbl) = None \<Longrightarrow>
   \<forall>j < i. sl (ns ! j) \<noteq> sl (ns ! i) \<Longrightarrow>
   name (cs ! i) = ns ! i \<and> slug (cs ! i) = sl (ns ! i)"
proof (induction ns arbitrary: tbl tbl' cs i)
  case Nil
  then show ?case by simp
next
  case (Cons n ns)
  obtain tbl1 r1 where g: "get_or_create sl (faulty n) tbl (sl n) n = (tbl1, r1)"
    by (cases "get_or_create sl (faulty n) tbl (sl n) n")
  obtain c where r1: "r1 = Inr c" using Cons.prems(1) g by (cases r1) auto
  obtain tbl2 r2 where e: "get_or_create_each sl faulty tbl1 ns = (tbl2, r2)"
    by (cases "get_or_create_each sl faulty tbl1 ns")
  obtain cs' where r2: "r2 = Inr cs'" using Cons.prems(1) g r1 e by (cases r2) auto
  have eq: "tbl' = tbl2" "cs = c # cs'" using Cons.prems(1) g r1 e r2 by auto
  note gi = get_or_create_Inr [of sl "faulty n" tbl n tbl1 c]
  show ?case
  proof (cases i)
    case 0
    then show ?thesis using gi g r1 eq Cons.prems(3) by auto
  next
    case (Suc k)
    have ne: "sl n \<noteq> sl (ns ! k)" using Cons.prems(4) Suc by fastforce
    have "find (\<lambda>r. slug r = sl (ns ! k)) (fst tbl1) = None"
      using gi g r1 Cons.prems(3) Suc ne by (auto simp: find_append_None)
    moreover have "\<forall>j < k. sl (ns ! j) \<noteq> sl (ns ! k)"
    proof (intro allI impI)
      fix j assume "j < k"
      then have "Suc j < i" using Suc by simp
      then have "sl ((n # ns) ! Suc j) \<noteq> sl ((n # ns) ! i)" using Cons.prems(4) by blast
      then show "sl (ns ! j) \<noteq> sl (ns ! k)" using Suc by simp
    qed
    moreover have "k < length ns" using Cons.prems(2) Suc by simp
    ultimately have "name (cs' ! k) = ns ! k \<and> slug (cs' ! k) = sl (ns ! k)"
      using Cons.IH [of tbl1 tbl2 cs' k] e r2 by blast
    then show ?thesis using Suc eq by simp
  qed
qed

text \<open>
  C9. The loops of \<open>save_to_db\<close> over the category names and over the tag names resolve each
  name \<open>n\<close> by \<open>slugify(n)\<close> alone.  When they complete, every name has its entity, the first
  row of the table with the slug of the name; the rows that were in the table are still
  there, unchanged; a name whose slug was already in the table gets that row, whatever name
  the row carries; two names with the same slug get the same entity; and a name is stored
  only in a row created for it, when neither the table nor an earlier name of the list had
  its slug.
\<close>

theorem C9_taxonomy_keyed_on_slug:
  assumes "get_or_create_each sl faulty tbl ns = (tbl', Inr cs)"
  shows "length cs = length ns
    \<and> (\<exists>new. fst tbl' = fst tbl @ new)
    \<and> (\<forall>i < length ns. find (\<lambda>r. slug r = sl (ns ! i)) (fst tbl') = Some (cs ! i))
    \<and> (\<forall>i < length ns. \<forall>r. find (\<lambda>r. slug r = sl (ns ! i)) (fst tbl) = Some r \<longrightarrow> cs ! i = r)
    \<and> (\<forall>i < length ns. \<forall>j < length ns. sl (ns ! i) = sl (ns ! j) \<longrightarrow> cs ! i = cs ! j)
    \<and> (\<forall>i < length ns. find (\<lambda>r. slug r = sl (ns ! i)) (fst tbl) = None
          \<and> (\<forall>j < i. sl (ns ! j) \<noteq> sl (ns ! i))
        \<longrightarrow> name (cs ! i) = ns ! i \<and> slug (cs ! i) = sl (ns ! i))"
proof -
  note f = get_or_create_each_found [OF assms]
  obtain new where g: "fst tbl' = fst tbl @ new"
    using get_or_create_each_grows [OF assms] by blast
  have reuse: "cs ! i = r"
    if "i < length ns" "find (\<lambda>r. slug r = sl (ns ! i)) (fst tbl) = Some r" for i r
  proof -
    have "find (\<lambda>r. slug r = sl (ns ! i)) (fst tbl') = Some r"
      using that(2) g by (simp add: find_append_Some)
    then show ?thesis using f that(1) by simp
  qed
  have same: "cs ! i = cs ! j"
    if "i < length ns" "j < length ns" "sl (ns ! i) = sl (ns ! j)" for i j
  proof -
    have "Some (cs ! i) = find (\<lambda>r. slug r = sl (ns ! i)) (fst tbl')" using f that(1) by simp
    also have "\<dots> = Some (cs ! j)" using f that(2,3) by simp
    finally show ?thesis by simp
  qed
  show ?thesis
    using f g reuse same get_or_create_each_created [OF assms] by blast
qed

theorem C9_taxonomy_keyed_on_slug_witness:
  "get_or_create_each django_slugify (\<lambda>n. False)
      ([\<lparr>pk = Some 1, name = ''Wellbeing'', slug = ''mental-health''\<rparr>], 2)
      [''Mental Health'', ''mental health'', ''Gen Z'']
    = (([\<lparr>pk = Some 1, name = ''Wellbeing'', slug = ''mental-health''\<rparr>,
         \<lparr>pk = Some 2, name = ''Gen Z'', slug = ''gen-z''\<rparr>], 3),
       Inr [\<lparr>pk = Some 1, name = ''Wellbeing'', slug = ''mental-health''\<rparr>,
            \<lparr>pk = Some 1, name = ''Wellbeing'', slug = ''mental-health''\<rparr>,
            \<lparr>pk = Some 2, name = ''Gen Z'', slug = ''gen-z''\<rparr>])
   \<and> length [\<lparr>pk = Some 1, name = ''Wellbeing'', slug = ''mental-health''\<rparr>,
            \<lparr>pk = Some 1, name = ''Wellbeing'', slug = ''mental-health''\<rparr>,
            \<lparr>pk = Some 2, name = ''Gen Z'', slug = ''gen-z''\<rparr>]
      = length [''Mental Health'', ''mental health'', ''Gen Z'']"
  (is "?run = (?tbl', Inr ?cs) \<and> _")
proof -
  have h: "?run = (?tbl', Inr ?cs)"
    by code_simp
  show ?thesis using h C9_taxonomy_keyed_on_slug [OF h] by blast
qed

lemma article_write_Inl: "article_write f d r = (d', Inl err) \<Longrightarrow> d' = d"
  by (auto simp: article_write_def split: if_splits option.splits)

lemma article_write_insert:
  "pk r = None \<Longrightarrow> article_write f d r = (d', Inr k) \<Longrightarrow>
   k = article_seq d
   \<and> d' = d\<lparr>article_table := article_table d @ [r\<lparr>pk := Some (article_seq d)\<rparr>],
            article_seq := Suc (article_seq d)\<rparr>"
  by (auto simp: article_write_def split: if_splits option.splits)

lemma map_replace_last:
  "\<forall>x \<in> set xs. \<not> P x \<Longrightarrow> P r \<Longrightarrow> map (\<lambda>x. if P x then r else x) (xs @ [r]) = xs @ [r]"
  by (induction xs) auto

lemma article_write_again:
  assumes "pk r = Some k" and "article_table d = tbl @ [r]"
    and "\<forall>x \<in> set tbl. pk x \<noteq> Some k"
    and "article_write f d r = (d', res)"
  shows "d' = d"
proof -
  have "map (\<lambda>x. if pk x = Some k then r else x) (tbl @ [r]) = tbl @ [r]"
    using map_replace_last [of tbl "\<lambda>x. pk x = Some k" r] assms(1,3) by simp
  then show ?thesis using assms
    by (auto simp: article_write_def split: if_splits option.splits)
qed

lemma Article_save_draft:
  assumes "status a = STATUS_DRAFT"
  shows "Article_save f t d a =
     (case article_write f d (article_row.truncate a) of
        (d', Inl err) \<Rightarrow> (a, d', Some err)
      | (d', Inr k) \<Rightarrow> (a\<lparr>pk := Some k, original_status := Some STATUS_DRAFT\<rparr>, d', None))"
  using assms
  by (simp add: Article_save_def Let_def STATUS_DRAFT_def STATUS_PUBLISHED_def
      split: prod.splits sum.splits)

lemma Article_save_draft_new:
  assumes "status a = STATUS_DRAFT" "pk a = None"
    and "Article_save f t d a = (a1, d3, None)"
  shows "a1 = a\<lparr>pk := Some (article_seq d), original_status := Some STATUS_DRAFT\<rparr>
       \<and> d3 = d\<lparr>article_table := article_table d @ [article_row.truncate a1],
                article_seq := Suc (article_seq d)\<rparr>"
proof -
  let ?r = "article_row.truncate a"
  have pr: "pk ?r = None" using assms(2) by (simp add: article_row.defs)
  obtain d' res where w: "article_write f d ?r = (d', res)" by (cases "article_write f d ?r")
  with assms(1,3) obtain k where res: "res = Inr k"
    by (cases res) (auto simp: Article_save_draft)
  from assms(1,3) w res have e: "a1 = a\<lparr>pk := Some k, original_status := Some STATUS_DRAFT\<rparr>"
    "d3 = d'" by (auto simp: Article_save_draft)
  from article_write_insert [OF pr] w res have k: "k = article_seq d"
    and d': "d' = d\<lparr>article_table := article_table d @ [?r\<lparr>pk := Some (article_seq d)\<rparr>],
            article_seq := Suc (article_seq d)\<rparr>" by auto
  have "article_row.truncate a1 = ?r\<lparr>pk := Some (article_seq d)\<rparr>"
    using e k by (simp add: article_row.defs)
  then show ?thesis using e k d' by simp
qed

lemma Article_save_draft_again:
  assumes "status a = STATUS_DRAFT" "pk a = Some k" "original_status a = Some STATUS_DRAFT"
    and "article_table d = tbl @ [article_row.truncate a]"
    and "\<forall>x \<in> set tbl. pk x \<noteq> Some k"
    and "Article_save f t d a = (a2, d6, r)"
  shows "d6 = d \<and> (r = None \<longrightarrow> a2 = a)"
proof -
  let ?r = "article_row.truncate a"
  have pr: "pk ?r = Some k" using assms(2) by (simp add: article_row.defs)
  obtain d' res where w: "article_write f d ?r = (d', res)" by (cases "article_write f d ?r")
  have d': "d' = d" using article_write_again [OF pr assms(4,5) w] .
  have k: "res = Inr j \<Longrightarrow> j = k" for j
    using w pr by (auto simp: article_write_def split: if_splits)
  have "a\<lparr>pk := Some k, original_status := Some STATUS_DRAFT\<rparr> = a"
    using assms(2,3) by simp
  then show ?thesis using assms(1,6) w d' k
    by (cases res) (auto simp: Article_save_draft)
qed

lemma draft_row_init:
  "status (Article_init (draft_row dat t s u)) = STATUS_DRAFT"
  "article_row.truncate (Article_init (draft_row dat t s u)) = draft_row dat t s u"
  "pk (draft_row dat t s u) = None"
  "original_url (draft_row dat t s u) = Some u"
  by (simp_all add: Article_init_def draft_row_def article_row.defs article.defs)

lemma create_article_no_key:
  "d_title dat = None \<or> d_summary dat = None \<Longrightarrow> create_article e d dat u cs ts = (d, None)"
  by (auto simp: create_article_def split: option.splits)

lemma create_article_no_insert:
  assumes "d_title dat = Some t" "d_summary dat = Some s"
    and "snd (article_write (fails e ArticleCreate) d (draft_row dat t s u)) = Inl err"
  shows "create_article e d dat u cs ts = (d, None)"
proof -
  obtain d3 where w: "article_write (fails e ArticleCreate) d (draft_row dat t s u) = (d3, Inl err)"
    using assms(3) by (cases "article_write (fails e ArticleCreate) d (draft_row dat t s u)") auto
  then have "d3 = d" by (rule article_write_Inl)
  with w have "Article_save (fails e ArticleCreate) (now e) d (Article_init (draft_row dat t s u))
      = (Article_init (draft_row dat t s u), d, Some err)"
    by (simp add: Article_save_draft [OF draft_row_init(1)] draft_row_init(2))
  then show ?thesis using assms(1,2) by (simp add: create_article_def)
qed

lemma create_article_after_insert:
  assumes wf: "wf_db d" and t: "d_title dat = Some t" "d_summary dat = Some s"
    and w: "snd (article_write (fails e ArticleCreate) d (draft_row dat t s u)) = Inr k"
    and c: "create_article e d dat u cs ts = (d', r)"
  shows "article_table d' = article_table d @ [(draft_row dat t s u)\<lparr>pk := Some (article_seq d)\<rparr>]
     \<and> article_seq d' = Suc (article_seq d)
     \<and> (r = None \<or> r = Some (Article_init ((draft_row dat t s u)\<lparr>pk := Some (article_seq d)\<rparr>)))"
proof -
  let ?draft = "draft_row dat t s u"
  let ?fresh = "Article_init ?draft"
  let ?stored = "?draft\<lparr>pk := Some (article_seq d)\<rparr>"
  let ?saved = "Article_init ?stored"
  note st0 = draft_row_init(1) [of dat t s u] and tr0 = draft_row_init(2) [of dat t s u]
    and pk0 = draft_row_init(3) [of dat t s u]
  obtain d3 where w': "article_write (fails e ArticleCreate) d ?draft = (d3, Inr k)"
    using w by (cases "article_write (fails e ArticleCreate) d ?draft") auto
  from article_write_insert [OF pk0 w'] have k: "k = article_seq d"
    and d3: "d3 = d\<lparr>article_table := article_table d @ [?stored], article_seq := Suc (article_seq d)\<rparr>"
    by auto
  have a1: "?fresh\<lparr>pk := Some k, original_status := Some STATUS_DRAFT\<rparr> = ?saved"
    using k by (simp add: Article_init_def draft_row_def article_row.defs article.defs)
  have s1: "Article_save (fails e ArticleCreate) (now e) d ?fresh = (?saved, d3, None)"
    using w' a1 by (simp add: Article_save_draft [OF st0] tr0)
  have p1: "status ?saved = STATUS_DRAFT" "pk ?saved = Some k" "original_status ?saved = Some STATUS_DRAFT"
    "article_row.truncate ?saved = ?stored"
    using k by (simp_all add: Article_init_def draft_row_def article_row.defs article.defs)
  have old: "\<forall>x \<in> set (article_table d). pk x \<noteq> Some k"
    using wf k by (fastforce simp: wf_db_def)
  have again: "d6 = d5 \<and> (r' = None \<longrightarrow> a2 = ?saved)"
    if "article_table d5 = article_table d3" "Article_save f (now e) d5 ?saved = (a2, d6, r')"
    for d5 d6 f a2 r'
  proof (rule Article_save_draft_again [OF p1(1,2,3) _ old that(2)])
    show "article_table d5 = article_table d @ [article_row.truncate ?saved]"
      using that(1) d3 p1(4) by simp
  qed
  define d4 where "d4 = (if cs \<noteq> []
       then d3\<lparr>article_categories := m2m_add (article_categories d3) k cs\<rparr> else d3)"
  define d5 where "d5 = (if ts \<noteq> []
       then d4\<lparr>article_tags := m2m_add (article_tags d4) k ts\<rparr> else d4)"
  have t4: "article_table d4 = article_table d3" "article_seq d4 = article_seq d3"
    by (simp_all add: d4_def)
  have t5: "article_table d5 = article_table d3" "article_seq d5 = article_seq d3"
    using t4 by (simp_all add: d5_def)
  obtain a2 d6 r' where f: "Article_save (fails e ArticleSave) (now e) d5 ?saved = (a2, d6, r')"
    by (cases "Article_save (fails e ArticleSave) (now e) d5 ?saved")
  note ag = again [OF t5(1) f]
  have ca: "create_article e d dat u cs ts =
     (if cs \<noteq> [] \<and> fails e CategoriesAdd then (d3, None)
      else if ts \<noteq> [] \<and> fails e TagsAdd then (d4, None)
      else (case r' of Some err \<Rightarrow> (d6, None) | None \<Rightarrow> (d6, Some a2)))"
    using t s1 p1(2) f [unfolded d5_def d4_def]
    by (cases "cs = []"; cases "ts = []";
        simp add: create_article_def d4_def d5_def Let_def split: option.splits)
  have tab: "article_table d' = article_table d3 \<and> article_seq d' = article_seq d3"
    using c ca ag t4 t5 by (auto split: if_splits option.splits)
  have res: "r = None \<or> r = Some ?saved"
    using c ca ag by (auto split: if_splits option.splits)
  show ?thesis using tab res d3 by simp
qed

lemma article_write_other:
  "article_write f d r = (d', x) \<Longrightarrow>
   category_table d' = category_table d \<and> category_seq d' = category_seq d
   \<and> tag_table d' = tag_table d \<and> tag_seq d' = tag_seq d
   \<and> article_categories d' = article_categories d \<and> article_tags d' = article_tags d"
  by (auto simp: article_write_def split: if_splits option.splits)

lemma Article_save_other:
  "Article_save f t d a = (a', d', x) \<Longrightarrow>
   category_table d' = category_table d \<and> category_seq d' = category_seq d
   \<and> tag_table d' = tag_table d \<and> tag_seq d' = tag_seq d
   \<and> article_categories d' = article_categories d \<and> article_tags d' = article_tags d"
  by (auto simp: Article_save_def Let_def split: prod.splits sum.splits dest: article_write_other)

lemma create_article_taxonomy:
  assumes "create_article e d dat u cs ts = (d', r)"
  shows "category_table d' = category_table d \<and> category_seq d' = category_seq d
   \<and> tag_table d' = tag_table d \<and> tag_seq d' = tag_seq d"
proof (cases "d_title dat = None \<or> d_summary dat = None")
  case True
  then show ?thesis using assms create_article_no_key [OF True] by simp
next
  case False
  then obtain t s where ts: "d_title dat = Some t" "d_summary dat = Some s" by auto
  obtain a1 d3 r1 where s1:
    "Article_save (fails e ArticleCreate) (now e) d (Article_init (draft_row dat t s u)) = (a1, d3, r1)"
    by (cases "Article_save (fails e ArticleCreate) (now e) d (Article_init (draft_row dat t s u))")
  note o1 = Article_save_other [OF s1]
  have o2: "category_table d6 = category_table d \<and> category_seq d6 = category_seq d
      \<and> tag_table d6 = tag_table d \<and> tag_seq d6 = tag_seq d"
    if "Article_save f tm d5 a = (a2, d6, r2)"
      "category_table d5 = category_table d3" "category_seq d5 = category_seq d3"
      "tag_table d5 = tag_table d3" "tag_seq d5 = tag_seq d3"
    for f tm d5 a a2 d6 r2
    using Article_save_other [OF that(1)] that(2-) o1 by simp
  show ?thesis
    using assms ts s1 o1
    by (cases "cs = []"; cases "ts = []";
        auto simp: create_article_def Let_def split: option.splits if_splits prod.splits
          dest!: Article_save_other)
qed


lemma resolve_tags_after_categories:
  "resolve_tags e (d\<lparr>category_table := x, category_seq := y\<rparr>) dat = resolve_tags e d dat"
  by (simp add: resolve_tags_def)

lemma save_to_db_existing:
  assumes "d_original_url dat = Some u"
    and "find (\<lambda>r. original_url r = Some u) (article_table d) = Some r"
  shows "article_table (fst (save_to_db e d dat)) = article_table d
     \<and> article_seq (fst (save_to_db e d dat)) = article_seq d
     \<and> article_categories (fst (save_to_db e d dat)) = article_categories d
     \<and> article_tags (fst (save_to_db e d dat)) = article_tags d
     \<and> snd (save_to_db e d dat) =
         (if isl (snd (resolve_categories e d dat)) \<or> isl (snd (resolve_tags e d dat))
             \<or> fails e ArticleFilter
          then None else Some (Article_init r))"
proof -
  obtain ct x where rc: "resolve_categories e d dat = (ct, x)"
    by (cases "resolve_categories e d dat")
  obtain tt y where rt: "resolve_tags e d dat = (tt, y)"
    by (cases "resolve_tags e d dat")
  show ?thesis
    using assms rc rt
    by (cases x; cases y)
       (simp_all add: save_to_db_def Let_def resolve_tags_after_categories)
qed


lemma save_to_db_Some:
  assumes "save_to_db e d dat = (d', Some a)"
  shows "\<exists>ct cs tt ts u.
      resolve_categories e d dat = (ct, Inr cs) \<and> resolve_tags e d dat = (tt, Inr ts)
    \<and> d_original_url dat = Some u \<and> \<not> fails e ArticleFilter
    \<and> (case find (\<lambda>r. original_url r = Some u) (article_table d) of
          Some ex \<Rightarrow>
            d' = d\<lparr>category_table := fst ct, category_seq := snd ct,
                   tag_table := fst tt, tag_seq := snd tt\<rparr> \<and> a = Article_init ex
        | None \<Rightarrow>
            create_article e (d\<lparr>category_table := fst ct, category_seq := snd ct,
                   tag_table := fst tt, tag_seq := snd tt\<rparr>) dat u cs ts = (d', Some a))"
proof -
  obtain ct x where rc: "resolve_categories e d dat = (ct, x)"
    by (cases "resolve_categories e d dat")
  obtain tt y where rt: "resolve_tags e d dat = (tt, y)"
    by (cases "resolve_tags e d dat")
  show ?thesis
    using assms rc rt
    by (cases x; cases y)
       (auto simp: save_to_db_def Let_def resolve_tags_after_categories
          split: option.splits if_splits)
qed

lemma resolve_again:
  assumes "get_or_create_each sl faulty tbl ns = (tbl', Inr cs)"
  shows "\<exists>cs'. get_or_create_each sl faulty tbl' ns = (tbl', Inr cs')"
proof -
  have "\<forall>n \<in> set ns. \<not> faulty n \<and> find (\<lambda>r. slug r = sl n) (fst tbl') \<noteq> None"
  proof
    fix n assume "n \<in> set ns"
    then obtain i where i: "i < length ns" "ns ! i = n" by (auto simp: in_set_conv_nth)
    have "find (\<lambda>r. slug r = sl n) (fst tbl') = Some (cs ! i)"
      using get_or_create_each_found [OF assms] i by auto
    moreover have "\<not> faulty n"
      using get_or_create_each_not_faulty [OF assms] \<open>n \<in> set ns\<close> by blast
    ultimately show "\<not> faulty n \<and> find (\<lambda>r. slug r = sl n) (fst tbl') \<noteq> None" by simp
  qed
  then show ?thesis using get_or_create_each_hits [of ns faulty sl tbl'] by blast
qed

lemma save_to_db_twice:
  assumes wf: "wf_db d" and s: "save_to_db e d dat = (d', Some a)"
  shows "save_to_db e d' dat = (d', Some a)"
proof -
  from save_to_db_Some [OF s] obtain ct cs tt ts u where
    rc: "resolve_categories e d dat = (ct, Inr cs)" and
    rt: "resolve_tags e d dat = (tt, Inr ts)" and
    u: "d_original_url dat = Some u" and nf: "\<not> fails e ArticleFilter" and
    c: "case find (\<lambda>r. original_url r = Some u) (article_table d) of
          Some ex \<Rightarrow>
            d' = d\<lparr>category_table := fst ct, category_seq := snd ct,
                   tag_table := fst tt, tag_seq := snd tt\<rparr> \<and> a = Article_init ex
        | None \<Rightarrow>
            create_article e (d\<lparr>category_table := fst ct, category_seq := snd ct,
                   tag_table := fst tt, tag_seq := snd tt\<rparr>) dat u cs ts = (d', Some a)"
    by blast
  let ?d2 = "d\<lparr>category_table := fst ct, category_seq := snd ct,
                   tag_table := fst tt, tag_seq := snd tt\<rparr>"
  have wf2: "wf_db ?d2" using wf by (simp add: wf_db_def)
  have key: "category_table d' = fst ct \<and> category_seq d' = snd ct
      \<and> tag_table d' = fst tt \<and> tag_seq d' = snd tt
      \<and> (\<exists>row. find (\<lambda>r. original_url r = Some u) (article_table d') = Some row
            \<and> a = Article_init row)"
  proof (cases "find (\<lambda>r. original_url r = Some u) (article_table d)")
    case (Some ex)
    with c show ?thesis by simp
  next
    case None
    with c have ca: "create_article e ?d2 dat u cs ts = (d', Some a)" by simp
    from ca obtain t s' where ts: "d_title dat = Some t" "d_summary dat = Some s'"
      using create_article_no_key [of dat e ?d2 u cs ts] by (cases "d_title dat"; cases "d_summary dat") auto
    obtain k where w: "snd (article_write (fails e ArticleCreate) ?d2 (draft_row dat t s' u)) = Inr k"
      using create_article_no_insert [OF ts, of e ?d2 u _ cs ts] ca
      by (cases "snd (article_write (fails e ArticleCreate) ?d2 (draft_row dat t s' u))") auto
    let ?stored = "(draft_row dat t s' u)\<lparr>pk := Some (article_seq ?d2)\<rparr>"
    from create_article_after_insert [OF wf2 ts w ca]
    have tab: "article_table d' = article_table ?d2 @ [?stored]" and a: "a = Article_init ?stored"
      by auto
    have "find (\<lambda>r. original_url r = Some u) (article_table ?d2) = None" using None by simp
    then have "find (\<lambda>r. original_url r = Some u) (article_table d') = Some ?stored"
      using tab by (simp add: find_append_None draft_row_init(4))
    then show ?thesis using create_article_taxonomy [OF ca] a by simp
  qed
  then obtain row where row: "find (\<lambda>r. original_url r = Some u) (article_table d') = Some row"
    "a = Article_init row" by blast
  have rc': "\<exists>cs'. resolve_categories e d' dat = (ct, Inr cs')"
    using resolve_again [OF rc [unfolded resolve_categories_def]] key
    by (simp add: resolve_categories_def)
  have rt': "\<exists>ts'. resolve_tags e d' dat = (tt, Inr ts')"
    using resolve_again [OF rt [unfolded resolve_tags_def]] key
    by (simp add: resolve_tags_def)
  have same: "d'\<lparr>category_table := fst ct, category_seq := snd ct\<rparr> = d'"
    "d'\<lparr>tag_table := fst tt, tag_seq := snd tt\<rparr> = d'"
    using key by simp_all
  from rc' rt' obtain cs' ts' where
    "resolve_categories e d' dat = (ct, Inr cs')" "resolve_tags e d' dat = (tt, Inr ts')" by blast
  then show ?thesis
    using u nf row same by (simp add: save_to_db_def Let_def)
qed

text \<open>
  C1, as amended.  When the URL of the record already belongs to a stored article,
  \<open>save_to_db\<close> leaves the article table, its sequence and both relation tables as they are,
  and returns that article as its row holds it; but the categories and tags are resolved
  first, and when that or the lookup raises, the result is \<open>None\<close>.  Committing the same
  record again after a commit that succeeded returns the same article and changes nothing.
\<close>

theorem C1_existing_url_returned_or_error:
  "(d_original_url dat = Some u \<and> find (\<lambda>r. original_url r = Some u) (article_table d) = Some r
      \<longrightarrow> article_table (fst (save_to_db e d dat)) = article_table d
        \<and> article_seq (fst (save_to_db e d dat)) = article_seq d
        \<and> article_categories (fst (save_to_db e d dat)) = article_categories d
        \<and> article_tags (fst (save_to_db e d dat)) = article_tags d
        \<and> snd (save_to_db e d dat) =
            (if isl (snd (resolve_categories e d dat)) \<or> isl (snd (resolve_tags e d dat))
                \<or> fails e ArticleFilter
             then None else Some (Article_init r)))
   \<and> (wf_db d \<and> save_to_db e d dat = (d', Some a) \<longrightarrow> save_to_db e d' dat = (d', Some a))"
  using save_to_db_existing [of dat u d r e] save_to_db_twice [of d e dat d' a] by blast

text \<open>
  C1 as stated fails: a record is committed, then a record with the same URL and one more
  tag, \<open>Gen Z\<close>, whose name a stored tag already has under another slug.  Creating the tag
  violates the uniqueness of the name, and the second commit returns \<open>None\<close>, not the article.
\<close>

theorem C1_second_commit_counterexample:
  "snd (save_to_db quiet_env edited_db (cnbc_record [''loneliness''])) \<noteq> None
   \<and> d_original_url (cnbc_record [''loneliness'', ''Gen Z''])
       = d_original_url (cnbc_record [''loneliness''])
   \<and> snd (save_to_db quiet_env
            (fst (save_to_db quiet_env edited_db (cnbc_record [''loneliness''])))
            (cnbc_record [''loneliness'', ''Gen Z''])) = None"
  by code_simp

theorem C1_existing_url_returned_or_error_witness:
  "wf_db edited_db
   \<and> snd (save_to_db quiet_env edited_db (cnbc_record [''loneliness''])) \<noteq> None
   \<and> save_to_db quiet_env (fst (save_to_db quiet_env edited_db (cnbc_record [''loneliness''])))
        (cnbc_record [''loneliness''])
      = save_to_db quiet_env edited_db (cnbc_record [''loneliness''])
   \<and> d_original_url (cnbc_record [''loneliness'', ''Gen Z''])
      = Some ''https://www.cnbc.com/loneliness''
   \<and> find (\<lambda>r. original_url r = Some ''https://www.cnbc.com/loneliness'')
        (article_table (fst (save_to_db quiet_env edited_db (cnbc_record [''loneliness'']))))
      \<noteq> None
   \<and> article_table (fst (save_to_db quiet_env
         (fst (save_to_db quiet_env edited_db (cnbc_record [''loneliness''])))
         (cnbc_record [''loneliness'', ''Gen Z''])))
      = article_table (fst (save_to_db quiet_env edited_db (cnbc_record [''loneliness''])))"
  (is "?wf \<and> ?ok \<and> ?again \<and> ?url \<and> ?found \<and> ?kept")
proof -
  let ?R = "cnbc_record [''loneliness'']"
  let ?R' = "cnbc_record [''loneliness'', ''Gen Z'']"
  let ?u = "''https://www.cnbc.com/loneliness''"
  have wf: ?wf by (simp add: wf_db_def edited_db_def empty_db_def)
  have ok: ?ok by code_simp
  then obtain x where "snd (save_to_db quiet_env edited_db ?R) = Some x"
    by (simp only: not_None_eq) blast
  then obtain d' a where s: "save_to_db quiet_env edited_db ?R = (d', Some a)"
    by (metis prod.collapse)
  have "save_to_db quiet_env d' ?R = (d', Some a)"
    using C1_existing_url_returned_or_error
      [where d = edited_db and e = quiet_env and dat = ?R and d' = d' and a = a] wf s
    by blast
  then have again: ?again by (simp only: s fst_conv)
  have url: ?url by (simp add: cnbc_record_def)
  have found: ?found by code_simp
  then have "find (\<lambda>r. original_url r = Some ?u) (article_table d') \<noteq> None"
    unfolding s fst_conv .
  then obtain r where r: "find (\<lambda>r. original_url r = Some ?u) (article_table d') = Some r"
    by (cases "find (\<lambda>r. original_url r = Some ?u) (article_table d')") blast+
  have "article_table (fst (save_to_db quiet_env d' ?R')) = article_table d'"
    using C1_existing_url_returned_or_error
      [where dat = ?R' and u = ?u and d = d' and r = r and e = quiet_env] url r
    by blast
  then have kept: ?kept by (simp only: s fst_conv)
  show ?thesis using wf ok again url found kept by blast
qed

lemma save_to_db_unfold:
  assumes "resolve_categories e d dat = (ct, x)" and "resolve_tags e d dat = (tt, y)"
  shows "save_to_db e d dat =
    (case x of
       Inl err \<Rightarrow> (d\<lparr>category_table := fst ct, category_seq := snd ct\<rparr>, None)
     | Inr cs \<Rightarrow>
        (case y of
           Inl err \<Rightarrow> (d\<lparr>category_table := fst ct, category_seq := snd ct,
                          tag_table := fst tt, tag_seq := snd tt\<rparr>, None)
         | Inr ts \<Rightarrow>
            (case d_original_url dat of
               None \<Rightarrow> (d\<lparr>category_table := fst ct, category_seq := snd ct,
                          tag_table := fst tt, tag_seq := snd tt\<rparr>, None)
             | Some u \<Rightarrow>
                 if fails e ArticleFilter
                 then (d\<lparr>category_table := fst ct, category_seq := snd ct,
                          tag_table := fst tt, tag_seq := snd tt\<rparr>, None)
                 else (case find (\<lambda>r. original_url r = Some u) (article_table d) of
                         Some ex \<Rightarrow> (d\<lparr>category_table := fst ct, category_seq := snd ct,
                                        tag_table := fst tt, tag_seq := snd tt\<rparr>,
                                      Some (Article_init ex))
                       | None \<Rightarrow> create_article e
                                   (d\<lparr>category_table := fst ct, category_seq := snd ct,
                                      tag_table := fst tt, tag_seq := snd tt\<rparr>) dat u cs ts))))"
  using assms
  by (cases x; cases y)
     (simp_all add: save_to_db_def Let_def resolve_tags_after_categories split: option.splits)

lemma get_or_create_each_Inl:
  "get_or_create_each sl faulty tbl ns = (tbl', Inl err) \<Longrightarrow>
   \<exists>i < length ns. \<exists>cs.
      get_or_create_each sl faulty tbl (take i ns) = (tbl', Inr cs)
    \<and> get_or_create sl (faulty (ns ! i)) tbl' (sl (ns ! i)) (ns ! i) = (tbl', Inl err)"
proof (induction ns arbitrary: tbl)
  case Nil
  then show ?case by simp
next
  case (Cons n ns)
  obtain tbl1 r1 where g: "get_or_create sl (faulty n) tbl (sl n) n = (tbl1, r1)"
    by (cases "get_or_create sl (faulty n) tbl (sl n) n")
  show ?case
  proof (cases r1)
    case (Inl e1)
    with g have t1: "tbl1 = tbl" by (simp add: get_or_create_Inl)
    from Cons.prems g Inl have "tbl' = tbl1" "err = e1" by simp_all
    with g Inl t1 have "get_or_create_each sl faulty tbl (take 0 (n # ns)) = (tbl', Inr [])
        \<and> get_or_create sl (faulty ((n # ns) ! 0)) tbl' (sl ((n # ns) ! 0)) ((n # ns) ! 0)
            = (tbl', Inl err)"
      by simp
    then show ?thesis by blast
  next
    case (Inr c)
    obtain tbl2 r2 where e: "get_or_create_each sl faulty tbl1 ns = (tbl2, r2)"
      by (cases "get_or_create_each sl faulty tbl1 ns")
    from Cons.prems g Inr e have r2: "r2 = Inl err" "tbl2 = tbl'" by (cases r2; simp)+
    from Cons.IH [of tbl1] e r2 obtain i cs where i: "i < length ns"
      "get_or_create_each sl faulty tbl1 (take i ns) = (tbl', Inr cs)"
      "get_or_create sl (faulty (ns ! i)) tbl' (sl (ns ! i)) (ns ! i) = (tbl', Inl err)"
      by blast
    have "Suc i < length (n # ns)
        \<and> get_or_create_each sl faulty tbl (take (Suc i) (n # ns)) = (tbl', Inr (c # cs))
        \<and> get_or_create sl (faulty ((n # ns) ! Suc i)) tbl' (sl ((n # ns) ! Suc i)) ((n # ns) ! Suc i)
            = (tbl', Inl err)"
      using i g Inr by simp
    then show ?thesis by blast
  qed
qed

lemma article_write_draft:
  assumes "find (\<lambda>x. original_url x = Some u) (article_table d) = None"
  shows "article_write f d (draft_row dat t s u) =
     (if f then (d, Inl DatabaseError)
      else if 255 < length t \<or> 150 < length (source_name (draft_row dat t s u))
              \<or> 500 < length (authors (draft_row dat t s u)) \<or> 2000 < length u
        then (d, Inl DataError)
      else (d\<lparr>article_table := article_table d @ [(draft_row dat t s u)\<lparr>pk := Some (article_seq d)\<rparr>],
              article_seq := Suc (article_seq d)\<rparr>, Inr (article_seq d)))"
proof -
  have n: "\<forall>x \<in> set (article_table d). original_url x \<noteq> Some u"
    using assms by (simp add: find_None_iff)
  have p: "pk (draft_row dat t s u) = None" "original_url (draft_row dat t s u) = Some u"
    "title (draft_row dat t s u) = t" "length (status (draft_row dat t s u)) = 5"
    by (simp_all add: draft_row_def STATUS_DRAFT_def)
  show ?thesis using n by (simp add: article_write_def p)
qed

lemma article_write_stored:
  assumes "pk r = Some k" and "article_table d = tbl @ [r]"
    and "\<forall>x \<in> set tbl. pk x \<noteq> Some k"
    and "\<forall>x \<in> set tbl. original_url x \<noteq> original_url r"
    and "\<not> (255 < length (title r) \<or> 150 < length (source_name r) \<or> 500 < length (authors r)
              \<or> 10 < length (status r)
              \<or> (case original_url r of None \<Rightarrow> False | Some u \<Rightarrow> 2000 < length u))"
  shows "article_write f d r = (d, if f then Inl DatabaseError else Inr k)"
proof -
  have m: "map (\<lambda>x. if pk x = Some k then r else x) (tbl @ [r]) = tbl @ [r]"
    using map_replace_last [of tbl "\<lambda>x. pk x = Some k" r] assms(1,3) by simp
  have u: "\<not> (\<exists>r' \<in> set (article_table d).
                 pk r' \<noteq> pk r \<and> original_url r \<noteq> None \<and> original_url r' = original_url r)"
    using assms(1,2,4) by auto
  have ex: "\<exists>r' \<in> set (article_table d). pk r' = Some k" using assms(1,2) by auto
  have "d\<lparr>article_table := tbl @ [r]\<rparr> = d" using assms(2) by simp
  have g: "article_write f d r =
      (if f then (d, Inl DatabaseError)
       else (d\<lparr>article_table := map (\<lambda>r'. if pk r' = Some k then r else r') (article_table d)\<rparr>,
             Inr k))"
    unfolding article_write_def using assms(5) u ex assms(1) by (simp only: if_False if_True option.case)
  show ?thesis unfolding g using m assms(2) by simp
qed


lemma Article_save_stored:
  assumes "status a = STATUS_DRAFT" "pk a = Some k" "original_status a = Some STATUS_DRAFT"
    and "article_write f d (article_row.truncate a) = (d, if f then Inl DatabaseError else Inr k)"
  shows "Article_save f tm d a = (a, d, if f then Some DatabaseError else None)"
proof -
  have "a\<lparr>pk := Some k, original_status := Some STATUS_DRAFT\<rparr> = a"
    using assms(2,3) by simp
  then show ?thesis using assms(4) by (simp add: Article_save_draft [OF assms(1)])
qed

lemma create_article_exact:
  assumes wf: "wf_db d"
    and n: "find (\<lambda>x. original_url x = Some u) (article_table d) = None"
    and t: "d_title dat = Some t" "d_summary dat = Some s"
    and ok: "\<not> (fails e ArticleCreate \<or> 255 < length t
                \<or> 150 < length (source_name (draft_row dat t s u))
                \<or> 500 < length (authors (draft_row dat t s u)) \<or> 2000 < length u)"
  shows "create_article e d dat u cs ts =
     (d\<lparr>article_table := article_table d @ [(draft_row dat t s u)\<lparr>pk := Some (article_seq d)\<rparr>],
        article_seq := Suc (article_seq d),
        article_categories :=
          (if cs \<noteq> [] \<and> \<not> fails e CategoriesAdd
           then m2m_add (article_categories d) (article_seq d) cs else article_categories d),
        article_tags :=
          (if ts \<noteq> [] \<and> \<not> (cs \<noteq> [] \<and> fails e CategoriesAdd) \<and> \<not> fails e TagsAdd
           then m2m_add (article_tags d) (article_seq d) ts else article_tags d)\<rparr>,
      if (cs \<noteq> [] \<and> fails e CategoriesAdd) \<or> (ts \<noteq> [] \<and> fails e TagsAdd)
           \<or> fails e ArticleSave
      then None else Some (Article_init ((draft_row dat t s u)\<lparr>pk := Some (article_seq d)\<rparr>)))"
proof -
  let ?draft = "draft_row dat t s u"
  let ?fresh = "Article_init ?draft"
  let ?stored = "?draft\<lparr>pk := Some (article_seq d)\<rparr>"
  let ?saved = "Article_init ?stored"
  let ?k = "article_seq d"
  define d3 where "d3 = d\<lparr>article_table := article_table d @ [?stored], article_seq := Suc ?k\<rparr>"
  note st0 = draft_row_init(1) [of dat t s u] and tr0 = draft_row_init(2) [of dat t s u]
  have w: "article_write (fails e ArticleCreate) d ?draft = (d3, Inr ?k)"
    using ok by (simp add: article_write_draft [OF n] d3_def)
  have a1: "?fresh\<lparr>pk := Some ?k, original_status := Some STATUS_DRAFT\<rparr> = ?saved"
    by (simp add: Article_init_def draft_row_def article_row.defs article.defs)
  have s1: "Article_save (fails e ArticleCreate) (now e) d ?fresh = (?saved, d3, None)"
    using w a1 by (simp add: Article_save_draft [OF st0] tr0)
  have p1: "status ?saved = STATUS_DRAFT" "pk ?saved = Some ?k"
    "original_status ?saved = Some STATUS_DRAFT" "article_row.truncate ?saved = ?stored"
    by (simp_all add: Article_init_def draft_row_def article_row.defs article.defs)
  have q: "pk ?stored = Some ?k" "original_url ?stored = Some u" "title ?stored = t"
    "source_name ?stored = source_name ?draft" "authors ?stored = authors ?draft"
    "length (status ?stored) = 5" "length (status ?draft) = 5"
    by (simp_all add: draft_row_def STATUS_DRAFT_def)
  have old: "\<forall>x \<in> set (article_table d). pk x \<noteq> Some ?k"
    using wf by (fastforce simp: wf_db_def)
  have nu: "\<forall>x \<in> set (article_table d). original_url x \<noteq> original_url ?stored"
    using n by (simp add: find_None_iff q(2))
  have len: "\<not> (255 < length (title ?stored) \<or> 150 < length (source_name ?stored)
              \<or> 500 < length (authors ?stored) \<or> 10 < length (status ?stored)
              \<or> (case original_url ?stored of None \<Rightarrow> False | Some u \<Rightarrow> 2000 < length u))"
    using ok by (simp add: q)
  have again: "Article_save f (now e) d5 ?saved
       = (?saved, d5, if f then Some DatabaseError else None)"
    if "article_table d5 = article_table d @ [?stored]" for d5 f
    by (rule Article_save_stored [OF p1(1,2,3)], unfold p1(4),
        rule article_write_stored [OF q(1) that old nu len])
  have t3: "article_table d3 = article_table d @ [?stored]" by (simp add: d3_def)
  have c: "create_article e d dat u cs ts =
     (if cs \<noteq> [] \<and> fails e CategoriesAdd then (d3, None)
      else let d4 = (if cs \<noteq> []
                     then d3\<lparr>article_categories := m2m_add (article_categories d3) ?k cs\<rparr>
                     else d3)
           in if ts \<noteq> [] \<and> fails e TagsAdd then (d4, None)
              else let d5 = (if ts \<noteq> []
                             then d4\<lparr>article_tags := m2m_add (article_tags d4) ?k ts\<rparr>
                             else d4)
                   in (d5, if fails e ArticleSave then None else Some ?saved))"
    using t s1 p1(2) t3
    by (cases "cs = []"; cases "ts = []"; cases "fails e ArticleSave";
        simp add: create_article_def Let_def again)
  show ?thesis unfolding c
    by (cases "cs = []"; cases "ts = []"; simp add: d3_def Let_def)
qed

lemma create_article_refused:
  assumes n: "find (\<lambda>x. original_url x = Some u) (article_table d) = None"
    and t: "d_title dat = Some t" "d_summary dat = Some s"
    and no: "fails e ArticleCreate \<or> 255 < length t
                \<or> 150 < length (source_name (draft_row dat t s u))
                \<or> 500 < length (authors (draft_row dat t s u)) \<or> 2000 < length u"
  shows "create_article e d dat u cs ts = (d, None)"
proof (cases "fails e ArticleCreate")
  case True
  then have "snd (article_write (fails e ArticleCreate) d (draft_row dat t s u)) = Inl DatabaseError"
    by (simp add: article_write_draft [OF n])
  then show ?thesis by (rule create_article_no_insert [OF t])
next
  case False
  with no have "snd (article_write (fails e ArticleCreate) d (draft_row dat t s u)) = Inl DataError"
    by (simp add: article_write_draft [OF n])
  then show ?thesis by (rule create_article_no_insert [OF t])
qed

lemma get_or_create_each_stops:
  assumes "get_or_create_each sl faulty tbl ns = (tbl', Inl err)"
  shows "\<exists>i < length ns. \<exists>cs.
      get_or_create_each sl faulty tbl (take i ns) = (tbl', Inr cs)
    \<and> (\<forall>j < i. find (\<lambda>c. slug c = sl (ns ! j)) (fst tbl') = Some (cs ! j))
    \<and> get_or_create sl (faulty (ns ! i)) tbl' (sl (ns ! i)) (ns ! i) = (tbl', Inl err)"
proof -
  from get_or_create_each_Inl [OF assms] obtain i cs where i: "i < length ns"
    "get_or_create_each sl faulty tbl (take i ns) = (tbl', Inr cs)"
    "get_or_create sl (faulty (ns ! i)) tbl' (sl (ns ! i)) (ns ! i) = (tbl', Inl err)"
    by blast
  have "\<forall>j < i. find (\<lambda>c. slug c = sl (ns ! j)) (fst tbl') = Some (cs ! j)"
    using get_or_create_each_found [OF i(2)] i(1) by simp
  with i show ?thesis by blast
qed

text \<open>
  C2, as amended.  There is no transaction: \<open>save_to_db\<close> returns \<open>None\<close> whenever a step of
  the commit raises, whether the database fails for a reason of its own or refuses a value,
  and nothing it has written is rolled back.  The category table is what the category loop
  left and the tag table what the tag loop left; a loop that stops at a name has resolved
  the names before it, and their rows are in the table.  When a loop, the key of the URL or
  the lookup fails, the article table and both relation tables are as they were.  For a URL
  not yet stored: without a title or a summary, and when the insertion is refused (a failure
  of the database, a title, source name, author list or URL over its length), they are as
  they were too; otherwise the new row is in the article table to stay, the categories are
  attached unless attaching them fails, the tags are attached unless attaching the
  categories or the tags fails, and the result is the article only when neither an
  attachment nor the final save has failed, \<open>None\<close> otherwise.
\<close>

theorem C2_failure_keeps_earlier_writes:
  assumes "wf_db d" and "save_to_db e d dat = (d', r)"
    and "resolve_categories e d dat = (ct, x)" and "resolve_tags e d dat = (tt, y)"
  shows "category_table d' = fst ct \<and> category_seq d' = snd ct
     \<and> (\<exists>new. category_table d' = category_table d @ new)
     \<and> (\<forall>err. x = Inl err \<longrightarrow>
           tag_table d' = tag_table d \<and> tag_seq d' = tag_seq d
         \<and> (\<exists>i < length (category_names dat). \<exists>cs.
               get_or_create_each (slugify e) (\<lambda>n. fails e (GetOrCreateCategory n))
                   (category_table d, category_seq d) (take i (category_names dat))
                 = (ct, Inr cs)
             \<and> (\<forall>j < i. find (\<lambda>c. slug c = slugify e (category_names dat ! j)) (category_table d')
                           = Some (cs ! j))
             \<and> get_or_create (slugify e) (fails e (GetOrCreateCategory (category_names dat ! i)))
                   ct (slugify e (category_names dat ! i)) (category_names dat ! i)
                 = (ct, Inl err)))
     \<and> (\<not> isl x \<longrightarrow>
           tag_table d' = fst tt \<and> tag_seq d' = snd tt
         \<and> (\<exists>new. tag_table d' = tag_table d @ new)
         \<and> (\<forall>err. y = Inl err \<longrightarrow>
              (\<exists>i < length (tag_names dat). \<exists>ts.
                  get_or_create_each (slugify e) (\<lambda>n. fails e (GetOrCreateTag n))
                      (tag_table d, tag_seq d) (take i (tag_names dat))
                    = (tt, Inr ts)
                \<and> (\<forall>j < i. find (\<lambda>c. slug c = slugify e (tag_names dat ! j)) (tag_table d')
                              = Some (ts ! j))
                \<and> get_or_create (slugify e) (fails e (GetOrCreateTag (tag_names dat ! i)))
                      tt (slugify e (tag_names dat ! i)) (tag_names dat ! i)
                    = (tt, Inl err))))
     \<and> (isl x \<or> isl y \<or> d_original_url dat = None \<or> fails e ArticleFilter \<longrightarrow>
           r = None
         \<and> article_table d' = article_table d \<and> article_seq d' = article_seq d
         \<and> article_categories d' = article_categories d \<and> article_tags d' = article_tags d)
     \<and> (\<forall>u cs ts. x = Inr cs \<and> y = Inr ts \<and> d_original_url dat = Some u
            \<and> \<not> fails e ArticleFilter
            \<and> find (\<lambda>a. original_url a = Some u) (article_table d) = None \<longrightarrow>
           (d_title dat = None \<or> d_summary dat = None \<longrightarrow>
              r = None
            \<and> article_table d' = article_table d \<and> article_seq d' = article_seq d
            \<and> article_categories d' = article_categories d \<and> article_tags d' = article_tags d)
         \<and> (\<forall>t s. d_title dat = Some t \<and> d_summary dat = Some s \<longrightarrow>
              (if fails e ArticleCreate \<or> 255 < length t
                    \<or> 150 < length (source_name (draft_row dat t s u))
                    \<or> 500 < length (authors (draft_row dat t s u)) \<or> 2000 < length u
               then r = None
                  \<and> article_table d' = article_table d \<and> article_seq d' = article_seq d
                  \<and> article_categories d' = article_categories d
                  \<and> article_tags d' = article_tags d
               else article_table d'
                      = article_table d @ [(draft_row dat t s u)\<lparr>pk := Some (article_seq d)\<rparr>]
                  \<and> article_seq d' = Suc (article_seq d)
                  \<and> article_categories d' =
                      (if cs \<noteq> [] \<and> \<not> fails e CategoriesAdd
                       then m2m_add (article_categories d) (article_seq d) cs
                       else article_categories d)
                  \<and> article_tags d' =
                      (if ts \<noteq> [] \<and> \<not> (cs \<noteq> [] \<and> fails e CategoriesAdd) \<and> \<not> fails e TagsAdd
                       then m2m_add (article_tags d) (article_seq d) ts
                       else article_tags d)
                  \<and> r = (if (cs \<noteq> [] \<and> fails e CategoriesAdd) \<or> (ts \<noteq> [] \<and> fails e TagsAdd)
                              \<or> fails e ArticleSave
                         then None
                         else Some (Article_init
                                ((draft_row dat t s u)\<lparr>pk := Some (article_seq d)\<rparr>))))))"
  (is "?cat \<and> ?catseq \<and> ?catgrow \<and> ?catstop \<and> ?tag \<and> ?early \<and> ?late")
proof -
  note rc = assms(3) and rt = assms(4)
  let ?d2 = "d\<lparr>category_table := fst ct, category_seq := snd ct,
               tag_table := fst tt, tag_seq := snd tt\<rparr>"
  note u = save_to_db_unfold [OF rc rt]
  have wf2: "wf_db ?d2" using assms(1) by (simp add: wf_db_def)
  have rc': "get_or_create_each (slugify e) (\<lambda>n. fails e (GetOrCreateCategory n))
       (category_table d, category_seq d) (category_names dat) = (ct, x)"
    using rc by (simp add: resolve_categories_def)
  have rt': "get_or_create_each (slugify e) (\<lambda>n. fails e (GetOrCreateTag n))
       (tag_table d, tag_seq d) (tag_names dat) = (tt, y)"
    using rt by (simp add: resolve_tags_def)
  have shape: "(\<exists>err. x = Inl err \<and> r = None
                  \<and> d' = d\<lparr>category_table := fst ct, category_seq := snd ct\<rparr>)
      \<or> (\<not> isl x \<and> (isl y \<or> d_original_url dat = None \<or> fails e ArticleFilter)
            \<and> r = None \<and> d' = ?d2)
      \<or> (\<exists>cs ts v ex. x = Inr cs \<and> y = Inr ts \<and> d_original_url dat = Some v
            \<and> \<not> fails e ArticleFilter
            \<and> find (\<lambda>a. original_url a = Some v) (article_table d) = Some ex \<and> d' = ?d2)
      \<or> (\<exists>cs ts v. x = Inr cs \<and> y = Inr ts \<and> d_original_url dat = Some v
            \<and> \<not> fails e ArticleFilter
            \<and> find (\<lambda>a. original_url a = Some v) (article_table d) = None
            \<and> create_article e ?d2 dat v cs ts = (d', r))"
    using assms(2) unfolding u
    by (cases x; cases y; cases "d_original_url dat"; cases "fails e ArticleFilter";
        auto split: option.splits)
  have tax: "category_table d' = fst ct \<and> category_seq d' = snd ct
      \<and> (isl x \<longrightarrow> tag_table d' = tag_table d \<and> tag_seq d' = tag_seq d)
      \<and> (\<not> isl x \<longrightarrow> tag_table d' = fst tt \<and> tag_seq d' = snd tt)"
    using shape create_article_taxonomy [of e ?d2 dat _ _ _ d' r] by auto
  have cg: "\<exists>new. fst ct = category_table d @ new"
    using get_or_create_each_grows [OF rc'] by simp
  have tg: "\<exists>new. fst tt = tag_table d @ new"
    using get_or_create_each_grows [OF rt'] by simp
  have "?cat" "?catseq" using tax by simp_all
  moreover have "?catgrow" using tax cg by simp
  moreover have "?catstop"
  proof (intro allI impI)
    fix err assume "x = Inl err"
    with rc' have "get_or_create_each (slugify e) (\<lambda>n. fails e (GetOrCreateCategory n))
       (category_table d, category_seq d) (category_names dat) = (ct, Inl err)" by simp
    from get_or_create_each_stops [OF this] tax \<open>x = Inl err\<close>
    show "tag_table d' = tag_table d \<and> tag_seq d' = tag_seq d
         \<and> (\<exists>i < length (category_names dat). \<exists>cs.
               get_or_create_each (slugify e) (\<lambda>n. fails e (GetOrCreateCategory n))
                   (category_table d, category_seq d) (take i (category_names dat))
                 = (ct, Inr cs)
             \<and> (\<forall>j < i. find (\<lambda>c. slug c = slugify e (category_names dat ! j)) (category_table d')
                           = Some (cs ! j))
             \<and> get_or_create (slugify e) (fails e (GetOrCreateCategory (category_names dat ! i)))
                   ct (slugify e (category_names dat ! i)) (category_names dat ! i)
                 = (ct, Inl err))"
      by simp
  qed
  moreover have "?tag"
  proof (intro impI conjI allI)
    assume nx: "\<not> isl x"
    show "tag_table d' = fst tt" "tag_seq d' = snd tt" using tax nx by simp_all
    show "\<exists>new. tag_table d' = tag_table d @ new" using tax nx tg by simp
    fix err assume "y = Inl err"
    with rt' have "get_or_create_each (slugify e) (\<lambda>n. fails e (GetOrCreateTag n))
       (tag_table d, tag_seq d) (tag_names dat) = (tt, Inl err)" by simp
    from get_or_create_each_stops [OF this] tax nx
    show "\<exists>i < length (tag_names dat). \<exists>ts.
                  get_or_create_each (slugify e) (\<lambda>n. fails e (GetOrCreateTag n))
                      (tag_table d, tag_seq d) (take i (tag_names dat))
                    = (tt, Inr ts)
                \<and> (\<forall>j < i. find (\<lambda>c. slug c = slugify e (tag_names dat ! j)) (tag_table d')
                              = Some (ts ! j))
                \<and> get_or_create (slugify e) (fails e (GetOrCreateTag (tag_names dat ! i)))
                      tt (slugify e (tag_names dat ! i)) (tag_names dat ! i)
                    = (tt, Inl err)"
      by simp
  qed
  moreover have "?early"
    using shape by (elim disjE exE conjE) auto
  moreover have "?late"
  proof (intro allI impI, elim conjE)
    fix v cs ts
    assume h: "x = Inr cs" "y = Inr ts" "d_original_url dat = Some v" "\<not> fails e ArticleFilter"
      "find (\<lambda>a. original_url a = Some v) (article_table d) = None"
    have ca: "create_article e ?d2 dat v cs ts = (d', r)"
      using assms(2) unfolding u using h by simp
    have n2: "find (\<lambda>a. original_url a = Some v) (article_table ?d2) = None"
      using h(5) by simp
    have a: "r = None
            \<and> article_table d' = article_table d \<and> article_seq d' = article_seq d
            \<and> article_categories d' = article_categories d \<and> article_tags d' = article_tags d"
      if "d_title dat = None \<or> d_summary dat = None"
      using ca create_article_no_key [OF that, of e ?d2 v cs ts] by auto
    have b: "if fails e ArticleCreate \<or> 255 < length t
                    \<or> 150 < length (source_name (draft_row dat t s v))
                    \<or> 500 < length (authors (draft_row dat t s v)) \<or> 2000 < length v
               then r = None
                  \<and> article_table d' = article_table d \<and> article_seq d' = article_seq d
                  \<and> article_categories d' = article_categories d
                  \<and> article_tags d' = article_tags d
               else article_table d'
                      = article_table d @ [(draft_row dat t s v)\<lparr>pk := Some (article_seq d)\<rparr>]
                  \<and> article_seq d' = Suc (article_seq d)
                  \<and> article_categories d' =
                      (if cs \<noteq> [] \<and> \<not> fails e CategoriesAdd
                       then m2m_add (article_categories d) (article_seq d) cs
                       else article_categories d)
                  \<and> article_tags d' =
                      (if ts \<noteq> [] \<and> \<not> (cs \<noteq> [] \<and> fails e CategoriesAdd) \<and> \<not> fails e TagsAdd
                       then m2m_add (article_tags d) (article_seq d) ts
                       else article_tags d)
                  \<and> r = (if (cs \<noteq> [] \<and> fails e CategoriesAdd) \<or> (ts \<noteq> [] \<and> fails e TagsAdd)
                              \<or> fails e ArticleSave
                         then None
                         else Some (Article_init
                                ((draft_row dat t s v)\<lparr>pk := Some (article_seq d)\<rparr>)))"
      if k: "d_title dat = Some t" "d_summary dat = Some s" for t s
    proof (cases "fails e ArticleCreate \<or> 255 < length t
                    \<or> 150 < length (source_name (draft_row dat t s v))
                    \<or> 500 < length (authors (draft_row dat t s v)) \<or> 2000 < length v")
      case True
      from create_article_refused [OF n2 k True, of cs ts] ca
      have "d' = ?d2" "r = None" by simp_all
      then show ?thesis using True by simp
    next
      case False
      from create_article_exact [OF wf2 n2 k False, of cs ts] ca
      have "d' = ?d2\<lparr>article_table := article_table ?d2
                        @ [(draft_row dat t s v)\<lparr>pk := Some (article_seq ?d2)\<rparr>],
        article_seq := Suc (article_seq ?d2),
        article_categories :=
          (if cs \<noteq> [] \<and> \<not> fails e CategoriesAdd
           then m2m_add (article_categories ?d2) (article_seq ?d2) cs else article_categories ?d2),
        article_tags :=
          (if ts \<noteq> [] \<and> \<not> (cs \<noteq> [] \<and> fails e CategoriesAdd) \<and> \<not> fails e TagsAdd
           then m2m_add (article_tags ?d2) (article_seq ?d2) ts else article_tags ?d2)\<rparr>"
        and "r = (if (cs \<noteq> [] \<and> fails e CategoriesAdd) \<or> (ts \<noteq> [] \<and> fails e TagsAdd)
           \<or> fails e ArticleSave
      then None else Some (Article_init ((draft_row dat t s v)\<lparr>pk := Some (article_seq ?d2)\<rparr>)))"
        by simp_all
      then show ?thesis using False by simp
    qed
    show "(d_title dat = None \<or> d_summary dat = None \<longrightarrow>
              r = None
            \<and> article_table d' = article_table d \<and> article_seq d' = article_seq d
            \<and> article_categories d' = article_categories d \<and> article_tags d' = article_tags d)
         \<and> (\<forall>t s. d_title dat = Some t \<and> d_summary dat = Some s \<longrightarrow>
              (if fails e ArticleCreate \<or> 255 < length t
                    \<or> 150 < length (source_name (draft_row dat t s v))
                    \<or> 500 < length (authors (draft_row dat t s v)) \<or> 2000 < length v
               then r = None
                  \<and> article_table d' = article_table d \<and> article_seq d' = article_seq d
                  \<and> article_categories d' = article_categories d
                  \<and> article_tags d' = article_tags d
               else article_table d'
                      = article_table d @ [(draft_row dat t s v)\<lparr>pk := Some (article_seq d)\<rparr>]
                  \<and> article_seq d' = Suc (article_seq d)
                  \<and> article_categories d' =
                      (if cs \<noteq> [] \<and> \<not> fails e CategoriesAdd
                       then m2m_add (article_categories d) (article_seq d) cs
                       else article_categories d)
                  \<and> article_tags d' =
                      (if ts \<noteq> [] \<and> \<not> (cs \<noteq> [] \<and> fails e CategoriesAdd) \<and> \<not> fails e TagsAdd
                       then m2m_add (article_tags d) (article_seq d) ts
                       else article_tags d)
                  \<and> r = (if (cs \<noteq> [] \<and> fails e CategoriesAdd) \<or> (ts \<noteq> [] \<and> fails e TagsAdd)
                              \<or> fails e ArticleSave
                         then None
                         else Some (Article_init
                                ((draft_row dat t s v)\<lparr>pk := Some (article_seq d)\<rparr>)))))"
      using a b by blast
  qed
  ultimately show ?thesis by blast
qed

text \<open>
  C2 as stated fails: the database fails when the categories are attached.  The commit
  returns \<open>None\<close>, and leaves the article row, with no category and no tag attached, and the
  two categories it created.
\<close>

theorem C2_article_without_attachments_counterexample:
  "snd (save_to_db (broken_at CategoriesAdd) empty_db (cnbc_record [''loneliness''])) = None
   \<and> map original_url (article_table
         (fst (save_to_db (broken_at CategoriesAdd) empty_db (cnbc_record [''loneliness'']))))
       = [Some ''https://www.cnbc.com/loneliness'']
   \<and> article_categories
         (fst (save_to_db (broken_at CategoriesAdd) empty_db (cnbc_record [''loneliness''])))
       = []
   \<and> map name (category_table
         (fst (save_to_db (broken_at CategoriesAdd) empty_db (cnbc_record [''loneliness'']))))
       = [''Health Research'', ''Corporate Studies'']"
  by code_simp

theorem C2_failure_keeps_earlier_writes_witness:
  "wf_db empty_db
   \<and> resolve_categories (broken_at TagsAdd) empty_db (cnbc_record [''loneliness''])
       = (([\<lparr>pk = Some 1, name = ''Health Research'', slug = ''health-research''\<rparr>,
            \<lparr>pk = Some 2, name = ''Corporate Studies'', slug = ''corporate-studies''\<rparr>], 3),
          Inr [\<lparr>pk = Some 1, name = ''Health Research'', slug = ''health-research''\<rparr>,
               \<lparr>pk = Some 2, name = ''Corporate Studies'', slug = ''corporate-studies''\<rparr>])
   \<and> resolve_tags (broken_at TagsAdd) empty_db (cnbc_record [''loneliness''])
       = (([\<lparr>pk = Some 1, name = ''loneliness'', slug = ''loneliness''\<rparr>], 2),
          Inr [\<lparr>pk = Some 1, name = ''loneliness'', slug = ''loneliness''\<rparr>])
   \<and> d_original_url (cnbc_record [''loneliness'']) = Some ''https://www.cnbc.com/loneliness''
   \<and> find (\<lambda>a. original_url a = Some ''https://www.cnbc.com/loneliness'') (article_table empty_db)
       = None
   \<and> d_title (cnbc_record [''loneliness'']) = Some ''Loneliness at work''
   \<and> d_summary (cnbc_record [''loneliness'']) = Some ''A study.''
   \<and> fails (broken_at TagsAdd) TagsAdd
   \<and> snd (save_to_db (broken_at TagsAdd) empty_db (cnbc_record [''loneliness''])) = None
   \<and> article_table (fst (save_to_db (broken_at TagsAdd) empty_db (cnbc_record [''loneliness''])))
       = [(draft_row (cnbc_record [''loneliness'']) ''Loneliness at work'' ''A study.''
             ''https://www.cnbc.com/loneliness'')\<lparr>pk := Some 1\<rparr>]
   \<and> article_categories
         (fst (save_to_db (broken_at TagsAdd) empty_db (cnbc_record [''loneliness''])))
       = [(1, 1), (1, 2)]
   \<and> article_tags (fst (save_to_db (broken_at TagsAdd) empty_db (cnbc_record [''loneliness''])))
       = []
   \<and> 255 < length (replicate 256 CHR ''a'')
   \<and> snd (save_to_db quiet_env empty_db
            ((cnbc_record [''loneliness''])\<lparr>d_title := Some (replicate 256 CHR ''a'')\<rparr>)) = None
   \<and> article_table (fst (save_to_db quiet_env empty_db
            ((cnbc_record [''loneliness''])\<lparr>d_title := Some (replicate 256 CHR ''a'')\<rparr>))) = []"
  (is "?wf \<and> ?rc \<and> ?rt \<and> ?url \<and> ?new \<and> ?title \<and> ?summary \<and> ?f
       \<and> ?none \<and> ?row \<and> ?cats \<and> ?tags \<and> ?long \<and> ?none2 \<and> ?tab2")
proof -
  let ?e = "broken_at TagsAdd" and ?R = "cnbc_record [''loneliness'']"
  let ?L = "(cnbc_record [''loneliness''])\<lparr>d_title := Some (replicate 256 CHR ''a'')\<rparr>"
  have wf: ?wf by (simp add: wf_db_def empty_db_def)
  have rc: ?rc by code_simp
  have rt: ?rt by code_simp
  have url: ?url by (simp add: cnbc_record_def)
  have new: ?new by (simp add: empty_db_def)
  have k: ?title ?summary by (simp_all add: cnbc_record_def)
  have f: ?f "\<not> fails ?e ArticleFilter" "\<not> fails ?e ArticleCreate" "\<not> fails ?e CategoriesAdd"
    by (simp_all add: broken_at_def quiet_env_def)
  have len: "\<not> (fails ?e ArticleCreate \<or> 255 < length ''Loneliness at work''
      \<or> 150 < length (source_name (draft_row ?R ''Loneliness at work'' ''A study.''
             ''https://www.cnbc.com/loneliness''))
      \<or> 500 < length (authors (draft_row ?R ''Loneliness at work'' ''A study.''
             ''https://www.cnbc.com/loneliness''))
      \<or> 2000 < length ''https://www.cnbc.com/loneliness'')"
    using f(3) by (simp add: draft_row_def cnbc_record_def)
  obtain d' r where s: "save_to_db ?e empty_db ?R = (d', r)"
    by (cases "save_to_db ?e empty_db ?R")
  note th = C2_failure_keeps_earlier_writes [OF wf s rc rt]
  let ?cs = "[\<lparr>pk = Some 1, name = ''Health Research'', slug = ''health-research''\<rparr>,
               \<lparr>pk = Some 2, name = ''Corporate Studies'', slug = ''corporate-studies''\<rparr>]"
  let ?ts = "[\<lparr>pk = Some 1, name = ''loneliness'', slug = ''loneliness''\<rparr>]"
  have hyp: "(Inr ?cs :: error + slug_model list) = Inr ?cs
      \<and> (Inr ?ts :: error + slug_model list) = Inr ?ts
      \<and> d_original_url ?R = Some ''https://www.cnbc.com/loneliness''
      \<and> \<not> fails ?e ArticleFilter
      \<and> find (\<lambda>a. original_url a = Some ''https://www.cnbc.com/loneliness'')
            (article_table empty_db) = None"
    using url new f(2) by simp
  note late = th [THEN conjunct2, THEN conjunct2, THEN conjunct2, THEN conjunct2,
      THEN conjunct2, THEN conjunct2, THEN spec, THEN spec, THEN spec, THEN mp, OF hyp,
      THEN conjunct2, THEN spec, THEN spec, THEN mp, OF conjI [OF k]]
  have res: "r = None
     \<and> article_table d' = [(draft_row ?R ''Loneliness at work'' ''A study.''
             ''https://www.cnbc.com/loneliness'')\<lparr>pk := Some 1\<rparr>]
     \<and> article_categories d' = [(1, 1), (1, 2)] \<and> article_tags d' = []"
    using late f len
    by (simp add: empty_db_def m2m_add_def List.map_filter_def)
  have long: ?long by simp
  have rc2: "resolve_categories quiet_env empty_db ?L
       = (([\<lparr>pk = Some 1, name = ''Health Research'', slug = ''health-research''\<rparr>,
            \<lparr>pk = Some 2, name = ''Corporate Studies'', slug = ''corporate-studies''\<rparr>], 3),
          Inr [\<lparr>pk = Some 1, name = ''Health Research'', slug = ''health-research''\<rparr>,
               \<lparr>pk = Some 2, name = ''Corporate Studies'', slug = ''corporate-studies''\<rparr>])"
    by code_simp
  have rt2: "resolve_tags quiet_env empty_db ?L
       = (([\<lparr>pk = Some 1, name = ''loneliness'', slug = ''loneliness''\<rparr>], 2),
          Inr [\<lparr>pk = Some 1, name = ''loneliness'', slug = ''loneliness''\<rparr>])"
    by code_simp
  have k2: "d_title ?L = Some (replicate 256 CHR ''a'')" "d_summary ?L = Some ''A study.''"
    "d_original_url ?L = Some ''https://www.cnbc.com/loneliness''"
    "\<not> fails quiet_env ArticleFilter"
    by (simp_all add: cnbc_record_def quiet_env_def)
  obtain d2 r2 where s2: "save_to_db quiet_env empty_db ?L = (d2, r2)"
    by (cases "save_to_db quiet_env empty_db ?L")
  note th2 = C2_failure_keeps_earlier_writes [OF wf s2 rc2 rt2]
  have hyp2: "(Inr ?cs :: error + slug_model list) = Inr ?cs
      \<and> (Inr ?ts :: error + slug_model list) = Inr ?ts
      \<and> d_original_url ?L = Some ''https://www.cnbc.com/loneliness''
      \<and> \<not> fails quiet_env ArticleFilter
      \<and> find (\<lambda>a. original_url a = Some ''https://www.cnbc.com/loneliness'')
            (article_table empty_db) = None"
    using k2(3,4) new by simp
  note late2 = th2 [THEN conjunct2, THEN conjunct2, THEN conjunct2, THEN conjunct2,
      THEN conjunct2, THEN conjunct2, THEN spec, THEN spec, THEN spec, THEN mp, OF hyp2,
      THEN conjunct2, THEN spec, THEN spec, THEN mp, OF conjI [OF k2(1,2)]]
  have res2: "r2 = None \<and> article_table d2 = []"
    using late2 long by (simp add: empty_db_def)
  show ?thesis
    unfolding s s2 fst_conv snd_conv
    using wf rc rt url new k f(1) res long res2 by blast
qed

section \<open>Properties of the extraction\<close>

text \<open>
  C4.  The claim is that \<open>extract_title\<close> never returns the empty string.  Both parsers take
  the first \<open>h1\<close> of the page when there is one, whatever it holds: a \<open>Tag\<close> is true also
  without content, so a page whose first \<open>h1\<close> is empty or holds only white space gets the
  empty title, and neither the heading found by its class nor the fixed title is tried.
\<close>

theorem C4_empty_heading_gives_empty_title:
  "Cnbc_extract_title
     (Some [Element ''html'' []
        [Element ''body'' []
           [Element ''h1'' [] [NavigableString '' ''],
            Element ''h2'' [(''class'', ''headline'')] [NavigableString ''Loneliness at work'']]]])
     = []
   \<and> Roots_extract_title
     (Some [Element ''html'' [] [Element ''body'' [] [Element ''h1'' [] []]]]) = []"
  by code_simp

















lemma relevant_sentences_take:
  "length acc < 3 \<Longrightarrow> relevant_sentences acc xs = take 3 (acc @ filter is_relevant xs)"
proof (induction xs arbitrary: acc)
  case Nil
  then show ?case by simp
next
  case (Cons x xs)
  show ?case
  proof (cases "is_relevant x")
    case False
    then show ?thesis using Cons by simp
  next
    case True
    show ?thesis
    proof (cases "length acc = 2")
      case True
      then show ?thesis using \<open>is_relevant x\<close> by simp
    next
      case False
      with Cons.prems have "length (acc @ [x]) < 3" by simp
      from Cons.IH [OF this] show ?thesis using \<open>is_relevant x\<close> False Cons.prems by simp
    qed
  qed
qed

lemma is_relevant_empty: "\<not> is_relevant []"
  by (simp add: is_relevant_def re_search_any_i_def lower_def)

lemma split_sentences_empty: "split_sentences [] = [[]]"
  by (simp add: split_sentences_def)

text \<open>
  C3, as amended.  \<open>CnbcParser.create_summary\<close> has three tiers: with statistics, its lead-in
  and the first three of them at most, one bullet a line; without, the first three at most
  of the sentences that match a topic keyword among the first five of the body, with a
  space between them, when there is one; the fixed sentence otherwise.
  \<open>RootsOfLonelinessParser.create_summary\<close> is given the statistics only and has two tiers:
  with statistics, its lead-in and the first five of them at most, one bullet a line; the
  fixed sentence otherwise.  These are the summaries of the records that \<open>parse\<close> builds.
\<close>

theorem C3_summary_tiers:
  "Cnbc_create_summary statistics content =
     (if statistics \<noteq> []
      then CNBC_LEAD_IN @ join [CHR 0x0A] (map (\<lambda>stat. BULLET @ stat) (take 3 statistics))
      else if filter is_relevant (take 5 (split_sentences content)) \<noteq> []
        then join '' '' (take 3 (filter is_relevant (take 5 (split_sentences content))))
      else CNBC_FALLBACK_SUMMARY)
   \<and> Roots_create_summary statistics =
     (if statistics \<noteq> []
      then ROOTS_LEAD_IN @ join [CHR 0x0A] (map (\<lambda>stat. BULLET @ stat) (take 5 statistics))
      else ROOTS_FALLBACK_SUMMARY)
   \<and> d_summary (Cnbc_result e p)
       = Some (Cnbc_create_summary (Cnbc_extract_statistics (soup p)) (Cnbc_extract_content (soup p)))
   \<and> d_summary (Roots_result e p) = Some (Roots_create_summary (Roots_extract_statistics (soup p)))"
  (is "?cnbc \<and> ?roots \<and> ?c \<and> ?r")
proof -
  have sel: "relevant_sentences [] (take 5 (split_sentences content))
      = take 3 (filter is_relevant (take 5 (split_sentences content)))"
    using relevant_sentences_take [of "[]"] by simp
  have ne: "take 3 (filter is_relevant (take 5 (split_sentences content))) \<noteq> []
      \<longleftrightarrow> filter is_relevant (take 5 (split_sentences content)) \<noteq> []"
    by (cases "filter is_relevant (take 5 (split_sentences content))") simp_all
  have e: "content = [] \<Longrightarrow> filter is_relevant (take 5 (split_sentences content)) = []"
    by (simp add: split_sentences_empty is_relevant_empty)
  have cnbc: ?cnbc
    unfolding Cnbc_create_summary_def sel ne using e by auto
  have roots: ?roots by (simp add: Roots_create_summary_def)
  have c: ?c by (simp add: Cnbc_result_def Let_def)
  have r: ?r by (simp add: Roots_result_def Let_def)
  show ?thesis by (intro conjI) (rule cnbc roots c r)+
qed

text \<open>
  C3 as stated fails for \<open>RootsOfLonelinessParser\<close>: a page without statistics whose body has
  sentences on loneliness.  The body is extracted, and \<open>CnbcParser.create_summary\<close> would
  choose two of its sentences, but the summary of the record is the fixed sentence.
\<close>

theorem C3_roots_has_no_sentence_tier_counterexample:
  "Roots_extract_statistics
      (Some [Element ''html'' [] [Element ''body'' [] [Element ''article'' []
         [Element ''p'' [] [NavigableString
            ''Loneliness is rising. Cigna study shows isolation increasing. Unrelated sentence.'']]]]])
     = []
   \<and> d_full_text_content (Roots_result quiet_env
        \<lparr>cls = RootsOfLonelinessParser, url = ''https://www.rootsofloneliness.com/statistics'',
         soup = Some [Element ''html'' [] [Element ''body'' [] [Element ''article'' []
           [Element ''p'' [] [NavigableString
              ''Loneliness is rising. Cigna study shows isolation increasing. Unrelated sentence.'']]]]]\<rparr>)
     = Some ''Loneliness is rising. Cigna study shows isolation increasing. Unrelated sentence.''
   \<and> Cnbc_create_summary []
        ''Loneliness is rising. Cigna study shows isolation increasing. Unrelated sentence.''
     = ''Loneliness is rising. Cigna study shows isolation increasing.''
   \<and> d_summary (Roots_result quiet_env
        \<lparr>cls = RootsOfLonelinessParser, url = ''https://www.rootsofloneliness.com/statistics'',
         soup = Some [Element ''html'' [] [Element ''body'' [] [Element ''article'' []
           [Element ''p'' [] [NavigableString
              ''Loneliness is rising. Cigna study shows isolation increasing. Unrelated sentence.'']]]]]\<rparr>)
     = Some ROOTS_FALLBACK_SUMMARY
   \<and> ROOTS_FALLBACK_SUMMARY \<noteq> ''Loneliness is rising. Cigna study shows isolation increasing.''"
  (is "?stats \<and> ?body \<and> ?cnbc \<and> ?summary \<and> ?differs")
proof -
  have stats: ?stats by code_simp
  have content: "Roots_extract_content
      (Some [Element ''html'' [] [Element ''body'' [] [Element ''article'' []
         [Element ''p'' [] [NavigableString
            ''Loneliness is rising. Cigna study shows isolation increasing. Unrelated sentence.'']]]]])
     = ''Loneliness is rising. Cigna study shows isolation increasing. Unrelated sentence.''"
    by code_simp
  have body: ?body by (simp add: Roots_result_def Let_def content)
  have cnbc: ?cnbc by code_simp
  have summary: ?summary
    by (simp add: Roots_result_def Let_def stats Roots_create_summary_def)
  have h: "hd ROOTS_FALLBACK_SUMMARY = char_of (208 :: nat)"
    by (simp add: ROOTS_FALLBACK_SUMMARY_def)
  have c: "char_of (208 :: nat) \<noteq> CHR ''L''" by code_simp
  have differs: ?differs
  proof
    assume a: "ROOTS_FALLBACK_SUMMARY
        = ''Loneliness is rising. Cigna study shows isolation increasing.''"
    have "hd ROOTS_FALLBACK_SUMMARY = CHR ''L''" unfolding a by simp
    with h c show False by simp
  qed
  show ?thesis by (intro conjI) (rule stats body cnbc summary differs)+
qed

theorem C3_summary_tiers_witness:
  "Cnbc_create_summary [''40% report loneliness''] ''Loneliness is rising.''
     = CNBC_LEAD_IN @ BULLET @ ''40% report loneliness''
   \<and> Roots_create_summary [''40% report loneliness'']
     = ROOTS_LEAD_IN @ BULLET @ ''40% report loneliness''
   \<and> Cnbc_create_summary [''1%'', ''2%'', ''3%'', ''4%'', ''5%'', ''6%''] []
     = CNBC_LEAD_IN @ BULLET @ ''1%'' @ [CHR 0x0A] @ BULLET @ ''2%'' @ [CHR 0x0A] @ BULLET @ ''3%''
   \<and> Roots_create_summary [''1%'', ''2%'', ''3%'', ''4%'', ''5%'', ''6%'']
     = ROOTS_LEAD_IN @ BULLET @ ''1%'' @ [CHR 0x0A] @ BULLET @ ''2%'' @ [CHR 0x0A] @ BULLET @ ''3%''
         @ [CHR 0x0A] @ BULLET @ ''4%'' @ [CHR 0x0A] @ BULLET @ ''5%''
   \<and> Cnbc_create_summary []
        ''Loneliness is rising. Cigna study shows isolation increasing. Unrelated sentence.''
     = ''Loneliness is rising. Cigna study shows isolation increasing.''
   \<and> Cnbc_create_summary [] ''Unrelated sentence.'' = CNBC_FALLBACK_SUMMARY
   \<and> Roots_create_summary [] = ROOTS_FALLBACK_SUMMARY"
  (is "?one \<and> ?rone \<and> ?three \<and> ?five \<and> ?sentences \<and> ?none \<and> ?rnone")
proof -
  have one: ?one
    using C3_summary_tiers [where statistics = "[''40% report loneliness'']"
        and content = "''Loneliness is rising.''" and e = quiet_env
        and p = "new_parser CnbcParser []", THEN conjunct1]
    by simp
  have rone: ?rone
    using C3_summary_tiers [where statistics = "[''40% report loneliness'']"
        and content = "[]" and e = quiet_env
        and p = "new_parser CnbcParser []", THEN conjunct2, THEN conjunct1]
    by simp
  have three: ?three
    using C3_summary_tiers [where statistics = "[''1%'', ''2%'', ''3%'', ''4%'', ''5%'', ''6%'']"
        and content = "[]" and e = quiet_env
        and p = "new_parser CnbcParser []", THEN conjunct1]
    by simp
  have five: ?five
    using C3_summary_tiers [where statistics = "[''1%'', ''2%'', ''3%'', ''4%'', ''5%'', ''6%'']"
        and content = "[]" and e = quiet_env
        and p = "new_parser CnbcParser []", THEN conjunct2, THEN conjunct1]
    by simp
  have s1: "filter is_relevant (take 5 (split_sentences
        ''Loneliness is rising. Cigna study shows isolation increasing. Unrelated sentence.''))
     = [''Loneliness is rising.'', ''Cigna study shows isolation increasing.'']"
    by code_simp
  have sentences: ?sentences
    using C3_summary_tiers [where statistics = "[]"
        and content = "''Loneliness is rising. Cigna study shows isolation increasing. Unrelated sentence.''"
        and e = quiet_env and p = "new_parser CnbcParser []", THEN conjunct1]
    unfolding s1 by simp
  have s2: "filter is_relevant (take 5 (split_sentences ''Unrelated sentence.'')) = []"
    by code_simp
  have none: ?none
    using C3_summary_tiers [where statistics = "[]" and content = "''Unrelated sentence.''"
        and e = quiet_env and p = "new_parser CnbcParser []", THEN conjunct1]
    unfolding s2 by simp
  have rnone: ?rnone
    using C3_summary_tiers [where statistics = "[]" and content = "[]"
        and e = quiet_env and p = "new_parser CnbcParser []", THEN conjunct2, THEN conjunct1]
    by simp
  show ?thesis by (intro conjI) (rule one rone three five sentences none rnone)+
qed

end
